theory Spec2Isabelle
  imports Main "HOL-Library.Word"
begin

unbundle bit_operations_syntax

section \<open>Artvision copyright protector: hashing, proof registry and anchor retry\<close>

text \<open>
  A shallow embedding of \<^verbatim>\<open>system/scripts/copyright_protector.py\<close> and
  \<^verbatim>\<open>system/scripts/retry_blockchain.py\<close>. Python's \<^verbatim>\<open>bytes\<close> are lists of
  8-bit words, a \<^verbatim>\<open>str\<close> that is only stored, compared or concatenated is a
  \<open>string\<close>, and the decoded text of a file (where slicing and \<^verbatim>\<open>len\<close> count code
  points) is a list of code points. Console output and exception messages are left out.
\<close>

type_synonym byte = "8 word"
type_synonym word32 = "32 word"
type_synonym path = string
type_synonym codepoints = "nat list"

subsection \<open>SHA-256 (FIPS 180-4), the function behind \<^verbatim>\<open>hashlib.sha256\<close>\<close>

text \<open>
  The round constants, eight to a row as the standard prints them: the first 32 bits of
  the fractional parts of the cube roots of the first 64 primes.
\<close>

definition sha256_K :: "word32 list" where
  "sha256_K =
      [0x428a2f98, 0x71374491, 0xb5c0fbcf, 0xe9b5dba5,
       0x3956c25b, 0x59f111f1, 0x923f82a4, 0xab1c5ed5] @
      [0xd807aa98, 0x12835b01, 0x243185be, 0x550c7dc3,
       0x72be5d74, 0x80deb1fe, 0x9bdc06a7, 0xc19bf174] @
      [0xe49b69c1, 0xefbe4786, 0x0fc19dc6, 0x240ca1cc,
       0x2de92c6f, 0x4a7484aa, 0x5cb0a9dc, 0x76f988da] @
      [0x983e5152, 0xa831c66d, 0xb00327c8, 0xbf597fc7,
       0xc6e00bf3, 0xd5a79147, 0x06ca6351, 0x14292967] @
      [0x27b70a85, 0x2e1b2138, 0x4d2c6dfc, 0x53380d13,
       0x650a7354, 0x766a0abb, 0x81c2c92e, 0x92722c85] @
      [0xa2bfe8a1, 0xa81a664b, 0xc24b8b70, 0xc76c51a3,
       0xd192e819, 0xd6990624, 0xf40e3585, 0x106aa070] @
      [0x19a4c116, 0x1e376c08, 0x2748774c, 0x34b0bcb5,
       0x391c0cb3, 0x4ed8aa4a, 0x5b9cca4f, 0x682e6ff3] @
      [0x748f82ee, 0x78a5636f, 0x84c87814, 0x8cc70208,
       0x90befffa, 0xa4506ceb, 0xbef9a3f7, 0xc67178f2]"

definition sha256_H0 :: "word32 list" where
  "sha256_H0 =
    [0x6a09e667, 0xbb67ae85, 0x3c6ef372, 0xa54ff53a,
     0x510e527f, 0x9b05688c, 0x1f83d9ab, 0x5be0cd19]"

definition ch :: "word32 \<Rightarrow> word32 \<Rightarrow> word32 \<Rightarrow> word32" where
  "ch x y z = (x AND y) XOR (NOT x AND z)"

definition maj :: "word32 \<Rightarrow> word32 \<Rightarrow> word32 \<Rightarrow> word32" where
  "maj x y z = (x AND y) XOR (x AND z) XOR (y AND z)"

definition bsig0 :: "word32 \<Rightarrow> word32" where
  "bsig0 x = word_rotr 2 x XOR word_rotr 13 x XOR word_rotr 22 x"

definition bsig1 :: "word32 \<Rightarrow> word32" where
  "bsig1 x = word_rotr 6 x XOR word_rotr 11 x XOR word_rotr 25 x"

definition ssig0 :: "word32 \<Rightarrow> word32" where
  "ssig0 x = word_rotr 7 x XOR word_rotr 18 x XOR drop_bit 3 x"

definition ssig1 :: "word32 \<Rightarrow> word32" where
  "ssig1 x = word_rotr 17 x XOR word_rotr 19 x XOR drop_bit 10 x"

text \<open>The sixteen big-endian words of a 64-byte block, and the 64-word message schedule.\<close>

fun be32s :: "byte list \<Rightarrow> word32 list" where
  "be32s (a # b # c # d # rest) =
     (push_bit 24 (ucast a) OR push_bit 16 (ucast b) OR push_bit 8 (ucast c) OR ucast d)
       # be32s rest"
| "be32s _ = []"

fun extend :: "nat \<Rightarrow> word32 list \<Rightarrow> word32 list" where
  "extend 0 w = w"
| "extend (Suc n) w =
     (let t = length w in
      extend n (w @ [ssig1 (w ! (t - 2)) + w ! (t - 7) + ssig0 (w ! (t - 15)) + w ! (t - 16)]))"

definition schedule :: "byte list \<Rightarrow> word32 list" where
  "schedule block = extend 48 (be32s block)"

fun sha_round :: "word32 list \<Rightarrow> word32 \<times> word32 \<Rightarrow> word32 list" where
  "sha_round [a, b, c, d, e, f, g, h] (k, w) =
     (let t1 = h + bsig1 e + ch e f g + k + w;
          t2 = bsig0 a + maj a b c
      in [t1 + t2, a, b, c, d + t1, e, f, g])"
| "sha_round v _ = v"

definition compress :: "word32 list \<Rightarrow> byte list \<Rightarrow> word32 list" where
  "compress hs block = map2 (+) hs (foldl sha_round hs (zip sha256_K (schedule block)))"

definition be64 :: "nat \<Rightarrow> byte list" where
  "be64 n = map (\<lambda>i. ucast (drop_bit (8 * i) (word_of_nat n :: 64 word))) (rev [0..<8])"

text \<open>
  The padding of a message of \<open>n\<close> bytes: the byte 0x80, zero bytes up to 56 modulo 64,
  and the bit length as a 64-bit big-endian number.
\<close>

definition padding :: "nat \<Rightarrow> byte list" where
  "padding n = 0x80 # replicate ((119 - n mod 64) mod 64) 0 @ be64 (8 * n)"

fun blocks :: "byte list \<Rightarrow> byte list list" where
  "blocks bs = (if bs = [] then [] else take 64 bs # blocks (drop 64 bs))"

declare blocks.simps [simp del]

definition be32_bytes :: "word32 \<Rightarrow> byte list" where
  "be32_bytes w = map (\<lambda>i. ucast (drop_bit (8 * i) w)) (rev [0..<4])"

text \<open>
  The digest of a whole message hashed at once, as the standard defines it: pad the
  message, cut it into 64-byte blocks, fold the compression function over them.
\<close>

definition sha256 :: "byte list \<Rightarrow> byte list" where
  "sha256 msg =
     concat (map be32_bytes (foldl compress sha256_H0 (blocks (msg @ padding (length msg)))))"

definition hex_digit :: "nat \<Rightarrow> char" where
  "hex_digit n = ''0123456789abcdef'' ! n"

definition hex_byte :: "byte \<Rightarrow> string" where
  "hex_byte b = [hex_digit (unat b div 16), hex_digit (unat b mod 16)]"

definition hex :: "byte list \<Rightarrow> string" where
  "hex bs = concat (map hex_byte bs)"

subsection \<open>The streaming hash object\<close>

text \<open>
  \<^verbatim>\<open>hashlib.sha256()\<close> returns an object that is fed piecewise: it keeps the chaining
  value, the bytes that do not yet fill a block, and the number of bytes seen.
  \<^verbatim>\<open>update\<close> compresses every block that has become full.
\<close>

record sha256_object =
  chaining :: "word32 list"
  buffered :: "byte list"
  seen :: nat

definition hashlib_sha256 :: sha256_object where
  "hashlib_sha256 = \<lparr>chaining = sha256_H0, buffered = [], seen = 0\<rparr>"

fun absorb :: "word32 list \<Rightarrow> byte list \<Rightarrow> word32 list \<times> byte list" where
  "absorb hs bs =
     (if length bs < 64 then (hs, bs) else absorb (compress hs (take 64 bs)) (drop 64 bs))"

declare absorb.simps [simp del]

definition update :: "sha256_object \<Rightarrow> byte list \<Rightarrow> sha256_object" where
  "update obj data =
     (case absorb (chaining obj) (buffered obj @ data) of
        (hs, rest) \<Rightarrow> \<lparr>chaining = hs, buffered = rest, seen = seen obj + length data\<rparr>)"

definition digest :: "sha256_object \<Rightarrow> byte list" where
  "digest obj =
     concat (map be32_bytes
       (foldl compress (chaining obj) (blocks (buffered obj @ padding (seen obj)))))"

definition hexdigest :: "sha256_object \<Rightarrow> string" where
  "hexdigest obj = hex (digest obj)"

subsection \<open>Hasher: \<^verbatim>\<open>calculate_hash\<close> and \<^verbatim>\<open>calculate_content_hash\<close>\<close>

text \<open>
  \<^verbatim>\<open>for byte_block in iter(lambda: f.read(4096), b""): sha256_hash.update(byte_block)\<close>.
  The open file is the list of bytes not yet read; \<^verbatim>\<open>f.read(4096)\<close> takes up to 4096
  of them, and the loop ends at the first empty read.
\<close>

function read_blocks :: "sha256_object \<Rightarrow> byte list \<Rightarrow> sha256_object" where
  "read_blocks sha256_hash f =
     (let byte_block = take 4096 f in
      if byte_block = [] then sha256_hash
      else read_blocks (update sha256_hash byte_block) (drop 4096 f))"
  by pat_completeness auto
termination
  by (relation "measure (\<lambda>(h, f). length f)") auto

declare read_blocks.simps [simp del]

subsection \<open>Text: UTF-8 and universal newlines\<close>

text \<open>
  \<^verbatim>\<open>open(path, 'r', encoding='utf-8')\<close> decodes strictly: overlong forms, surrogates,
  values above U+10FFFF and truncated sequences are errors. Bytes are given by their
  values; \<open>decode_one\<close> reads one code point and returns the bytes after it.
\<close>

definition continuation :: "nat \<Rightarrow> bool" where
  "continuation c \<longleftrightarrow> 0x80 \<le> c \<and> c \<le> 0xBF"

definition second_of_3 :: "nat \<Rightarrow> nat \<Rightarrow> bool" where
  "second_of_3 b c \<longleftrightarrow>
     (if b = 0xE0 then 0xA0 \<le> c \<and> c \<le> 0xBF
      else if b = 0xED then 0x80 \<le> c \<and> c \<le> 0x9F
      else continuation c)"

definition second_of_4 :: "nat \<Rightarrow> nat \<Rightarrow> bool" where
  "second_of_4 b c \<longleftrightarrow>
     (if b = 0xF0 then 0x90 \<le> c \<and> c \<le> 0xBF
      else if b = 0xF4 then 0x80 \<le> c \<and> c \<le> 0x8F
      else continuation c)"

definition decode_one :: "nat \<Rightarrow> nat list \<Rightarrow> (nat \<times> nat list) option" where
  "decode_one b bs =
     (if b < 0x80 then Some (b, bs)
      else if 0xC2 \<le> b \<and> b \<le> 0xDF then
        (case bs of
           c1 # r \<Rightarrow>
             if continuation c1 then Some ((b - 0xC0) * 64 + (c1 - 0x80), r) else None
         | _ \<Rightarrow> None)
      else if 0xE0 \<le> b \<and> b \<le> 0xEF then
        (case bs of
           c1 # c2 # r \<Rightarrow>
             if second_of_3 b c1 \<and> continuation c2
             then Some ((b - 0xE0) * 4096 + (c1 - 0x80) * 64 + (c2 - 0x80), r)
             else None
         | _ \<Rightarrow> None)
      else if 0xF0 \<le> b \<and> b \<le> 0xF4 then
        (case bs of
           c1 # c2 # c3 # r \<Rightarrow>
             if second_of_4 b c1 \<and> continuation c2 \<and> continuation c3
             then Some ((b - 0xF0) * 262144 + (c1 - 0x80) * 4096 + (c2 - 0x80) * 64
                          + (c3 - 0x80), r)
             else None
         | _ \<Rightarrow> None)
      else None)"

function decode_utf8 :: "nat list \<Rightarrow> codepoints option" where
  "decode_utf8 [] = Some []"
| "decode_utf8 (b # bs) =
     (case decode_one b bs of
        None \<Rightarrow> None
      | Some (c, r) \<Rightarrow> map_option ((#) c) (decode_utf8 r))"
  by pat_completeness auto
termination
  by (relation "measure length") (auto simp: decode_one_def split: if_splits list.splits)

text \<open>Text mode with the default \<^verbatim>\<open>newline=None\<close> turns CR LF and CR into LF.\<close>

fun universal_newlines :: "codepoints \<Rightarrow> codepoints" where
  "universal_newlines [] = []"
| "universal_newlines (c # cs) =
     (if c = 13 then
        (case cs of
           d # r \<Rightarrow> if d = 10 then 10 # universal_newlines r else 10 # universal_newlines cs
         | [] \<Rightarrow> [10])
      else c # universal_newlines cs)"

definition read_text :: "byte list \<Rightarrow> codepoints option" where
  "read_text bs = map_option universal_newlines (decode_utf8 (map unat bs))"

text \<open>\<^verbatim>\<open>str.encode('utf-8')\<close>: a surrogate cannot be encoded.\<close>

definition encode_cp :: "nat \<Rightarrow> nat list option" where
  "encode_cp c =
     (if c < 0x80 then Some [c]
      else if c < 0x800 then Some [0xC0 + c div 64, 0x80 + c mod 64]
      else if 0xD800 \<le> c \<and> c \<le> 0xDFFF then None
      else if c < 0x10000 then
        Some [0xE0 + c div 4096, 0x80 + c div 64 mod 64, 0x80 + c mod 64]
      else if c < 0x110000 then
        Some [0xF0 + c div 262144, 0x80 + c div 4096 mod 64, 0x80 + c div 64 mod 64,
              0x80 + c mod 64]
      else None)"

fun utf8_encode :: "codepoints \<Rightarrow> byte list option" where
  "utf8_encode [] = Some []"
| "utf8_encode (c # cs) =
     (case encode_cp c of
        None \<Rightarrow> None
      | Some bs \<Rightarrow> map_option ((@) (map of_nat bs)) (utf8_encode cs))"

subsection \<open>Paths\<close>

text \<open>
  \<^verbatim>\<open>pathlib\<close> on POSIX: a path is cut at the slashes, empty and \<^verbatim>\<open>.\<close> components
  are dropped; \<^verbatim>\<open>name\<close> is the last component, \<^verbatim>\<open>stem\<close> the name without its last
  suffix. Paths are taken in the form \<^verbatim>\<open>str(Path(p))\<close> gives them.
\<close>

fun split_on :: "char \<Rightarrow> string \<Rightarrow> string list" where
  "split_on c [] = [[]]"
| "split_on c (x # xs) =
     (if x = c then [] # split_on c xs
      else (case split_on c xs of y # ys \<Rightarrow> (x # y) # ys | [] \<Rightarrow> [[x]]))"

definition components :: "path \<Rightarrow> string list" where
  "components p = filter (\<lambda>c. c \<noteq> [] \<and> c \<noteq> ''.'') (split_on (CHR ''/'') p)"

definition path_name :: "path \<Rightarrow> string" where
  "path_name p = (case components p of [] \<Rightarrow> [] | c # cs \<Rightarrow> last (c # cs))"

definition path_stem :: "path \<Rightarrow> string" where
  "path_stem p =
     (let name = path_name p;
          front = rev (tl (dropWhile (\<lambda>c. c \<noteq> CHR ''.'') (rev name)))
      in if CHR ''.'' \<in> set name \<and> 0 < length front \<and> length front < length name - 1
         then front else name)"

definition joinpath :: "path \<Rightarrow> string \<Rightarrow> path" where
  "joinpath a b = a @ ''/'' @ b"

definition basename :: "path \<Rightarrow> string" where
  "basename p = rev (takeWhile (\<lambda>c. c \<noteq> CHR ''/'') (rev p))"

subsection \<open>\<^verbatim>\<open>bytes.fromhex\<close>\<close>

definition isspace :: "char \<Rightarrow> bool" where
  "isspace c \<longleftrightarrow> c \<in> set [CHR '' '', CHR 0x09, CHR 0x0A, CHR 0x0B, CHR 0x0C, CHR 0x0D]"

definition hexval :: "char \<Rightarrow> nat option" where
  "hexval c =
     (let n = (of_char c :: nat) in
      if 48 \<le> n \<and> n \<le> 57 then Some (n - 48)
      else if 97 \<le> n \<and> n \<le> 102 then Some (n - 87)
      else if 65 \<le> n \<and> n \<le> 70 then Some (n - 55)
      else None)"

text \<open>White space is skipped between the pairs of digits; anything else is a \<^verbatim>\<open>ValueError\<close>.\<close>

fun fromhex :: "string \<Rightarrow> byte list option" where
  "fromhex [] = Some []"
| "fromhex (c # cs) =
     (if isspace c then fromhex cs
      else (case cs of
              [] \<Rightarrow> None
            | d # r \<Rightarrow>
                (case (hexval c, hexval d) of
                   (Some h, Some l) \<Rightarrow> map_option ((#) (of_nat (16 * h + l))) (fromhex r)
                 | _ \<Rightarrow> None)))"

subsection \<open>Data model\<close>

text \<open>
  The dictionaries the program builds have fixed keys and become records. Where two
  dictionaries share a key, the fields of the nested one carry a prefix: the anchor
  receipt (\<^verbatim>\<open>proofs.blockchain\<close>) has \<open>ots_\<close>, the local proof document \<open>pd_\<close>.
  \<open>entry_id\<close> is the key \<^verbatim>\<open>id\<close>. A Russian string constant of the source is the
  list of its UTF-8 bytes.
\<close>

datatype error =
    FileNotFoundError
  | UnicodeDecodeError
  | UnicodeEncodeError
  | ValueError
  | AttributeError
  | JSONDecodeError

definition utf8 :: "nat list \<Rightarrow> string" where
  "utf8 ns = map char_of ns"

definition ots_note_text :: string where
  "ots_note_text = utf8
     [208, 159, 208, 190, 208, 180, 209, 130, 208, 178, 208, 181, 209, 128, 208, 182, 208,
      180, 208, 181, 208, 189, 208, 184, 208, 181, 32, 208, 178, 32, 208, 177, 208, 187,
      208, 190, 208, 186, 209, 135, 208, 181, 208, 185, 208, 189, 208, 181, 32, 66, 105,
      116, 99, 111, 105, 110, 32, 208, 183, 208, 176, 208, 189, 208, 184, 208, 188, 208,
      176, 208, 181, 209, 130, 32, 126, 50, 32, 209, 135, 208, 176, 209, 129, 208, 176]"

definition author_company :: string where
  "author_company = utf8
     [208, 156, 208, 176, 209, 128, 208, 186, 208, 181, 209, 130, 208, 184, 208, 189, 208,
      179, 208, 190, 208, 178, 208, 190, 208, 181, 32, 208, 176, 208, 179, 208, 181, 208,
      189, 209, 130, 209, 129, 209, 130, 208, 178, 208, 190, 32, 65, 114, 116, 118, 105,
      115, 105, 111, 110]"

definition author_location :: string where
  "author_location = utf8
     [208, 161, 208, 176, 208, 189, 208, 186, 209, 130, 45, 208, 159, 208, 181, 209, 130,
      208, 181, 209, 128, 208, 177, 209, 131, 209, 128, 208, 179, 44, 32, 208, 156, 208,
      190, 209, 129, 208, 186, 208, 178, 208, 176]"

definition message_found :: string where
  "message_found = utf8
     [208, 164, 208, 176, 208, 185, 208, 187, 32, 208, 189, 208, 176, 208, 185, 208, 180,
      208, 181, 208, 189, 32, 208, 178, 32, 209, 128, 208, 181, 208, 181, 209, 129, 209,
      130, 209, 128, 208, 181]"

definition message_not_found :: string where
  "message_not_found = utf8
     [208, 164, 208, 176, 208, 185, 208, 187, 32, 208, 157, 208, 149, 32, 208, 189, 208,
      176, 208, 185, 208, 180, 208, 181, 208, 189, 32, 208, 178, 32, 209, 128, 208, 181,
      208, 181, 209, 129, 209, 130, 209, 128, 208, 181]"

definition summary_title :: string where
  "summary_title = utf8
     [208, 161, 208, 146, 208, 152, 208, 148, 208, 149, 208, 162, 208, 149, 208, 155, 208,
      172, 208, 161, 208, 162, 208, 146, 208, 158, 32, 208, 158, 32, 208, 151, 208, 144,
      208, 169, 208, 152, 208, 162, 208, 149, 32, 208, 144, 208, 146, 208, 162, 208, 158,
      208, 160, 208, 161, 208, 154, 208, 152, 208, 165, 32, 208, 159, 208, 160, 208, 144,
      208, 146]"

definition instruction_1 :: string where
  "instruction_1 = utf8
     [49, 46, 32, 208, 146, 209, 139, 209, 135, 208, 184, 209, 129, 208, 187, 208, 184,
      209, 130, 208, 181, 32, 83, 72, 65, 45, 50, 53, 54, 32, 209, 133, 208, 181, 209, 136,
      32, 208, 184, 209, 129, 209, 133, 208, 190, 208, 180, 208, 189, 208, 190, 208, 179,
      208, 190, 32, 209, 132, 208, 176, 208, 185, 208, 187, 208, 176]"

definition instruction_2 :: string where
  "instruction_2 = utf8
     [50, 46, 32, 208, 161, 209, 128, 208, 176, 208, 178, 208, 189, 208, 184, 209, 130,
      208, 181, 32, 209, 129, 32, 209, 133, 208, 181, 209, 136, 208, 181, 208, 188, 32,
      208, 178, 32, 209, 141, 209, 130, 208, 190, 208, 188, 32, 208, 180, 208, 190, 208,
      186, 209, 131, 208, 188, 208, 181, 208, 189, 209, 130, 208, 181]"

definition instruction_3 :: string where
  "instruction_3 = utf8
     [51, 46, 32, 208, 148, 208, 187, 209, 143, 32, 98, 108, 111, 99, 107, 99, 104, 97,
      105, 110, 45, 208, 178, 208, 181, 209, 128, 208, 184, 209, 132, 208, 184, 208, 186,
      208, 176, 209, 134, 208, 184, 208, 184, 32, 208, 184, 209, 129, 208, 191, 208, 190,
      208, 187, 209, 140, 208, 183, 209, 131, 208, 185, 209, 130, 208, 181, 32, 104, 116,
      116, 112, 115, 58, 47, 47, 111, 112, 101, 110, 116, 105, 109, 101, 115, 116, 97, 109,
      112, 115, 46, 111, 114, 103, 47]"

definition instruction_4 :: string where
  "instruction_4 = utf8
     [52, 46, 32, 208, 151, 208, 176, 208, 179, 209, 128, 209, 131, 208, 183, 208, 184,
      209, 130, 208, 181, 32, 46, 111, 116, 115, 32, 209, 132, 208, 176, 208, 185, 208,
      187, 32, 208, 180, 208, 187, 209, 143, 32, 208, 191, 209, 128, 208, 190, 208, 178,
      208, 181, 209, 128, 208, 186, 208, 184]"

definition legal_notice_1 :: string where
  "legal_notice_1 = utf8
     [208, 148, 208, 176, 208, 189, 208, 189, 209, 139, 208, 185, 32, 208, 191, 208, 176,
      208, 186, 208, 181, 209, 130, 32, 208, 180, 208, 190, 208, 186, 209, 131, 208, 188,
      208, 181, 208, 189, 209, 130, 208, 190, 208, 178, 32, 208, 191, 208, 190, 208, 180,
      209, 130, 208, 178, 208, 181, 209, 128, 208, 182, 208, 180, 208, 176, 208, 181, 209,
      130, 32, 209, 132, 208, 176, 208, 186, 209, 130, 32, 209, 129, 209, 131, 209, 137,
      208, 181, 209, 129, 209, 130, 208, 178, 208, 190, 208, 178, 208, 176, 208, 189, 208,
      184, 209, 143, 32, 209, 132, 208, 176, 208, 185, 208, 187, 208, 176, 32, 39]"

definition legal_notice_2 :: string where
  "legal_notice_2 = utf8
     [39, 32, 208, 189, 208, 176, 32, 208, 180, 208, 176, 209, 130, 209, 131, 32]"

definition legal_notice_3 :: string where
  "legal_notice_3 = utf8
     [46, 32, 208, 165, 208, 181, 209, 136, 45, 209, 129, 209, 131, 208, 188, 208, 188,
      208, 176, 32, 209, 132, 208, 176, 208, 185, 208, 187, 208, 176, 32, 208, 183, 208,
      176, 209, 132, 208, 184, 208, 186, 209, 129, 208, 184, 209, 128, 208, 190, 208, 178,
      208, 176, 208, 189, 208, 176, 32, 208, 178, 32, 208, 177, 208, 187, 208, 190, 208,
      186, 209, 135, 208, 181, 208, 185, 208, 189, 208, 181, 32, 66, 105, 116, 99, 111,
      105, 110, 32, 209, 135, 208, 181, 209, 128, 208, 181, 208, 183, 32, 209, 129, 208,
      181, 209, 128, 208, 178, 208, 184, 209, 129, 32, 79, 112, 101, 110, 84, 105, 109,
      101, 115, 116, 97, 109, 112, 115, 46]"

record anchor_receipt =
  ots_service :: string
  ots_blockchain :: string
  ots_file :: path
  ots_verification_url :: string
  ots_status :: string
  ots_note :: string

record local_proof =
  proof_file :: path
  proof_hash :: string

record proof_refs =
  local :: local_proof
  blockchain :: "anchor_receipt option"

record entry =
  entry_id :: int
  file_name :: string
  original_path :: path
  hash :: string
  hash_algorithm :: string
  registered_at :: string
  project :: "string option"
  client :: "string option"
  description :: "string option"
  proofs :: proof_refs
  status :: string

text \<open>The ledger: \<^verbatim>\<open>{"files": [...], "metadata": {"created": ..., "updated": ...}}\<close>.\<close>

record registry =
  files :: "entry list"
  created :: string
  updated :: "string option"

record proof_document =
  pd_version :: string
  pd_type :: string
  pd_author :: string
  pd_company :: string
  pd_location :: string
  pd_website :: string
  pd_since :: int
  pd_name :: string
  pd_original_path :: path
  pd_size_bytes :: int
  pd_hash_algorithm :: string
  pd_hash :: string
  pd_created :: string
  pd_timezone :: string
  pd_unix :: int
  pd_first_100_chars_hash :: string
  pd_last_100_chars_hash :: string
  pd_total_lines :: int
  pd_total_chars :: int

record summary =
  title :: string
  document_type :: string
  generated_at :: string
  summary_entry :: entry
  verification :: "string list"
  legal_notice :: string

record verify_result =
  verified :: bool
  message :: string
  found_entry :: "entry option"
  current_hash :: "string option"

subsection \<open>The world outside the program\<close>

text \<open>
  The store maps a path to the content of a regular file; directories, permissions and
  quotas are not modelled, so \<^verbatim>\<open>mkdir\<close> does nothing and a write always succeeds. A
  file that \<^verbatim>\<open>json.dump\<close> wrote holds the document itself, and \<^verbatim>\<open>json.load\<close> gives it
  back; the text of a document matters only when such a file is read as bytes, and is a
  parameter of the world (\<open>json_bytes\<close>), as is the text of
  \<^verbatim>\<open>json.dumps(proof, sort_keys=True)\<close> (\<open>json_dumps_sorted\<close>).

  The clock answers the \<open>n\<close>-th call of \<^verbatim>\<open>datetime.now()\<close>. The timestamping server
  answers the \<open>n\<close>-th request; \<open>requests\<close> records every request sent and \<open>writes\<close>
  every file opened for writing, in order.
\<close>

datatype json_doc = RegistryDoc registry | ProofDoc proof_document | SummaryDoc summary

datatype fdata = Bytes "byte list" | Json json_doc

datatype http_result = Response "byte list" | URLError | OtherException

record datetime =
  isoformat :: string
  unix_time :: int

record world =
  fs :: "path \<rightharpoonup> fdata"
  cwd :: path
  clock :: "nat \<Rightarrow> datetime"
  ticks :: nat
  net :: "nat \<Rightarrow> byte list \<Rightarrow> http_result"
  requests :: "byte list list"
  writes :: "path list"
  json_bytes :: "json_doc \<Rightarrow> byte list"
  json_dumps_sorted :: "proof_document \<Rightarrow> string"

definition now :: "world \<Rightarrow> datetime \<times> world" where
  "now w = (clock w (ticks w), w\<lparr>ticks := Suc (ticks w)\<rparr>)"

definition file_bytes :: "world \<Rightarrow> fdata \<Rightarrow> byte list" where
  "file_bytes w d = (case d of Bytes bs \<Rightarrow> bs | Json doc \<Rightarrow> json_bytes w doc)"

text \<open>
  \<^verbatim>\<open>open(p, 'w')\<close> truncates the file at once; the content arrives with the writes
  that follow.
\<close>

definition open_w :: "path \<Rightarrow> world \<Rightarrow> world" where
  "open_w p w = w\<lparr>fs := (fs w)(p \<mapsto> Bytes []), writes := writes w @ [p]\<rparr>"

definition put :: "path \<Rightarrow> fdata \<Rightarrow> world \<Rightarrow> world" where
  "put p d w = w\<lparr>fs := (fs w)(p \<mapsto> d)\<rparr>"

definition absolute :: "world \<Rightarrow> path \<Rightarrow> path" where
  "absolute w p = (case p of c # _ \<Rightarrow> if c = CHR ''/'' then p else joinpath (cwd w) p
                   | [] \<Rightarrow> cwd w)"

text \<open>\<^verbatim>\<open>shutil.copy(src, directory)\<close> copies to \<^verbatim>\<open>directory/basename(src)\<close>.\<close>

definition shutil_copy :: "path \<Rightarrow> path \<Rightarrow> world \<Rightarrow> error + world" where
  "shutil_copy src dir w =
     (case fs w src of
        None \<Rightarrow> Inl FileNotFoundError
      | Some d \<Rightarrow> Inr (put (joinpath dir (basename src)) d (open_w (joinpath dir (basename src)) w)))"

subsection \<open>\<^verbatim>\<open>CopyrightProtector\<close>: the object and its ledger\<close>

record protector =
  base_dir :: path
  proofs_dir :: path
  logs_dir :: path
  registry_file :: path
  registry :: registry

text \<open>
  \<^verbatim>\<open>_load_registry\<close>: the stored ledger, or a fresh one when the file does not exist.
  A file at the ledger's path that does not hold a ledger document is rejected.
\<close>

definition load_registry :: "path \<Rightarrow> world \<Rightarrow> (error + registry) \<times> world" where
  "load_registry file w =
     (case fs w file of
        None \<Rightarrow>
          (case now w of
             (t, w1) \<Rightarrow> (Inr \<lparr>files = [], created = isoformat t, updated = None\<rparr>, w1))
      | Some (Json (RegistryDoc r)) \<Rightarrow> (Inr r, w)
      | Some _ \<Rightarrow> (Inl JSONDecodeError, w))"

text \<open>\<^verbatim>\<open>__init__\<close>, with \<^verbatim>\<open>base_dir\<close> given.\<close>

definition CopyrightProtector :: "path \<Rightarrow> world \<Rightarrow> (error + protector) \<times> world" where
  "CopyrightProtector dir w =
     (case load_registry (joinpath dir ''registry.json'') w of
        (Inl e, w1) \<Rightarrow> (Inl e, w1)
      | (Inr r, w1) \<Rightarrow>
          (Inr \<lparr>base_dir = dir,
                proofs_dir = joinpath dir ''proofs'',
                logs_dir = joinpath dir ''logs'',
                registry_file = joinpath dir ''registry.json'',
                registry = r\<rparr>, w1))"

text \<open>
  \<^verbatim>\<open>_save_registry\<close>: stamp the ledger, open the file for writing, dump the ledger into
  it. \<open>save_registry_opened\<close> is the world between the last two steps.
\<close>

definition stamp_registry :: "protector \<Rightarrow> world \<Rightarrow> protector \<times> world" where
  "stamp_registry self w =
     (case now w of
        (t, w1) \<Rightarrow> (self\<lparr>registry := (registry self)\<lparr>updated := Some (isoformat t)\<rparr>\<rparr>, w1))"

definition save_registry_opened :: "protector \<Rightarrow> world \<Rightarrow> protector \<times> world" where
  "save_registry_opened self w =
     (case stamp_registry self w of
        (self1, w1) \<Rightarrow> (self1, open_w (registry_file self1) w1))"

definition save_registry :: "protector \<Rightarrow> world \<Rightarrow> protector \<times> world" where
  "save_registry self w =
     (case save_registry_opened self w of
        (self1, w2) \<Rightarrow>
          (self1, put (registry_file self1) (Json (RegistryDoc (registry self1))) w2))"

definition calculate_hash :: "path \<Rightarrow> world \<Rightarrow> error + string" where
  "calculate_hash file_path w =
     (case fs w file_path of
        None \<Rightarrow> Inl FileNotFoundError
      | Some d \<Rightarrow> Inr (hexdigest (read_blocks hashlib_sha256 (file_bytes w d))))"

definition calculate_content_hash :: "codepoints \<Rightarrow> error + string" where
  "calculate_content_hash content =
     (case utf8_encode content of
        None \<Rightarrow> Inl UnicodeEncodeError
      | Some bs \<Rightarrow> Inr (hexdigest (update hashlib_sha256 bs)))"

subsection \<open>Anchor client: \<^verbatim>\<open>create_timestamp_opentimestamps\<close>\<close>

text \<open>
  Everything happens inside \<^verbatim>\<open>try\<close>, and both handlers return \<^verbatim>\<open>None\<close>: a hash that
  is not hexadecimal, a transport error and any other exception give no receipt. A
  response is stored as it came.
\<close>

definition create_timestamp_opentimestamps ::
    "protector \<Rightarrow> string \<Rightarrow> string \<Rightarrow> world \<Rightarrow> anchor_receipt option \<times> world" where
  "create_timestamp_opentimestamps self file_hash name w =
     (case fromhex file_hash of
        None \<Rightarrow> (None, w)
      | Some hash_bytes \<Rightarrow>
          (let w1 = w\<lparr>requests := requests w @ [hash_bytes]\<rparr> in
           case net w (length (requests w)) hash_bytes of
             URLError \<Rightarrow> (None, w1)
           | OtherException \<Rightarrow> (None, w1)
           | Response ots_data \<Rightarrow>
               (let ots_path =
                      joinpath (proofs_dir self) (name @ ''_'' @ take 16 file_hash @ ''.ots'')
                in (Some \<lparr>ots_service = ''OpenTimestamps'',
                          ots_blockchain = ''Bitcoin'',
                          ots_file = ots_path,
                          ots_verification_url = ''https://opentimestamps.org/'',
                          ots_status = ''pending_confirmation'',
                          ots_note = ots_note_text\<rparr>,
                    put ots_path (Bytes ots_data) (open_w ots_path w1)))))"

subsection \<open>Proof store: \<^verbatim>\<open>create_local_proof\<close>\<close>

definition create_local_proof ::
    "protector \<Rightarrow> path \<Rightarrow> string \<Rightarrow> world \<Rightarrow> (error + local_proof) \<times> world" where
  "create_local_proof self file_path file_hash w =
     (case fs w file_path of
        None \<Rightarrow> (Inl FileNotFoundError, w)
      | Some d \<Rightarrow>
          (case read_text (file_bytes w d) of
             None \<Rightarrow> (Inl UnicodeDecodeError, w)
           | Some content \<Rightarrow>
               (case now w of
                  (created_at, w1) \<Rightarrow>
                    (case now w1 of
                       (unix_at, w2) \<Rightarrow>
                         (case calculate_content_hash (take 100 content) of
                            Inl e \<Rightarrow> (Inl e, w2)
                          | Inr first_hash \<Rightarrow>
                              (case calculate_content_hash
                                      (drop (length content - 100) content) of
                                 Inl e \<Rightarrow> (Inl e, w2)
                               | Inr last_hash \<Rightarrow>
                                   (let proof =
                                          \<lparr>pd_version = ''1.0'',
                                           pd_type = ''copyright_proof'',
                                           pd_author = ''Artvision.pro'',
                                           pd_company = author_company,
                                           pd_location = author_location,
                                           pd_website = ''https://artvision.pro'',
                                           pd_since = 2007,
                                           pd_name = path_name file_path,
                                           pd_original_path = absolute w file_path,
                                           pd_size_bytes = int (length (file_bytes w d)),
                                           pd_hash_algorithm = ''SHA-256'',
                                           pd_hash = file_hash,
                                           pd_created = isoformat created_at,
                                           pd_timezone = ''Europe/Moscow'',
                                           pd_unix = unix_time unix_at,
                                           pd_first_100_chars_hash = first_hash,
                                           pd_last_100_chars_hash = last_hash,
                                           pd_total_lines =
                                             int (length (filter (\<lambda>c. c = 10) content)) + 1,
                                           pd_total_chars = int (length content)\<rparr>;
                                        proof_path =
                                          joinpath (proofs_dir self)
                                            (path_stem file_path @ ''_'' @ take 16 file_hash
                                               @ ''_proof.json'');
                                        w3 = put proof_path (Json (ProofDoc proof))
                                               (open_w proof_path w2)
                                    in case calculate_content_hash
                                              (map of_char (json_dumps_sorted w3 proof)) of
                                         Inl e \<Rightarrow> (Inl e, w3)
                                       | Inr h \<Rightarrow>
                                           (Inr \<lparr>proof_file = proof_path, proof_hash = h\<rparr>,
                                            w3))))))))"

subsection \<open>Orchestrator: \<^verbatim>\<open>protect_file\<close>, \<^verbatim>\<open>verify_file\<close>, \<^verbatim>\<open>export_proof_package\<close>\<close>

text \<open>
  A method returns its result, the object and the world. The loop over
  \<^verbatim>\<open>self.registry["files"]\<close> that returns at the first entry with the hash is \<open>find\<close>.
\<close>

definition protect_file ::
    "path \<Rightarrow> string option \<Rightarrow> string option \<Rightarrow> string option \<Rightarrow> protector \<Rightarrow> world
      \<Rightarrow> (error + entry) \<times> protector \<times> world" where
  "protect_file file_path project_name client_name descr self w =
     (if fs w file_path = None then (Inl FileNotFoundError, self, w)
      else
        (case calculate_hash file_path w of
           Inl e \<Rightarrow> (Inl e, self, w)
         | Inr file_hash \<Rightarrow>
             (case find (\<lambda>entry. hash entry = file_hash) (files (registry self)) of
                Some entry \<Rightarrow> (Inr entry, self, w)
              | None \<Rightarrow>
                  (case create_local_proof self file_path file_hash w of
                     (Inl e, w1) \<Rightarrow> (Inl e, self, w1)
                   | (Inr local_proof, w1) \<Rightarrow>
                       (case create_timestamp_opentimestamps self file_hash
                               (path_stem file_path) w1 of
                          (blockchain_proof, w2) \<Rightarrow>
                            (case now w2 of
                               (t, w3) \<Rightarrow>
                                 (let entry =
                                        \<lparr>entry_id = int (length (files (registry self))) + 1,
                                         file_name = path_name file_path,
                                         original_path = absolute w3 file_path,
                                         hash = file_hash,
                                         hash_algorithm = ''SHA-256'',
                                         registered_at = isoformat t,
                                         project = project_name,
                                         client = client_name,
                                         description = descr,
                                         proofs = \<lparr>local = local_proof,
                                                   blockchain = blockchain_proof\<rparr>,
                                         status = ''protected''\<rparr>;
                                      self1 = self\<lparr>registry := (registry self)
                                                \<lparr>files := files (registry self) @ [entry]\<rparr>\<rparr>
                                  in case save_registry self1 w3 of
                                       (self2, w4) \<Rightarrow> (Inr entry, self2, w4))))))))"

definition verify_file ::
    "path \<Rightarrow> protector \<Rightarrow> world \<Rightarrow> (error + verify_result) \<times> protector \<times> world" where
  "verify_file file_path self w =
     (case calculate_hash file_path w of
        Inl e \<Rightarrow> (Inl e, self, w)
      | Inr file_hash \<Rightarrow>
          (case find (\<lambda>entry. hash entry = file_hash) (files (registry self)) of
             Some entry \<Rightarrow>
               (Inr \<lparr>verified = True, message = message_found,
                     found_entry = Some entry, current_hash = None\<rparr>, self, w)
           | None \<Rightarrow>
               (Inr \<lparr>verified = False, message = message_not_found,
                     found_entry = None, current_hash = Some file_hash\<rparr>, self, w)))"

text \<open>
  \<^verbatim>\<open>entry['proofs'].get('blockchain', {}).get('ots_file')\<close>: the key \<^verbatim>\<open>blockchain\<close> is
  always there, so the default \<^verbatim>\<open>{}\<close> is never taken; when its value is \<^verbatim>\<open>None\<close> the
  second \<^verbatim>\<open>.get\<close> raises \<^verbatim>\<open>AttributeError\<close>.
\<close>

definition export_proof_package ::
    "int \<Rightarrow> path option \<Rightarrow> protector \<Rightarrow> world \<Rightarrow> (error + path) \<times> protector \<times> world" where
  "export_proof_package file_id output_dir self w =
     (case find (\<lambda>e. entry_id e = file_id) (files (registry self)) of
        None \<Rightarrow> (Inl ValueError, self, w)
      | Some entry \<Rightarrow>
          (let out = (case output_dir of
                        None \<Rightarrow> joinpath (proofs_dir self) ''packages''
                      | Some d \<Rightarrow> if d = [] then joinpath (proofs_dir self) ''packages'' else d);
               package_dir =
                 joinpath out (''copyright_proof_'' @ file_name entry @ ''_''
                                 @ take 8 (hash entry))
           in case (if proof_file (local (proofs entry)) \<noteq> []
                    then shutil_copy (proof_file (local (proofs entry))) package_dir w
                    else Inr w) of
                Inl e \<Rightarrow> (Inl e, self, w)
              | Inr w1 \<Rightarrow>
                  (case blockchain (proofs entry) of
                     None \<Rightarrow> (Inl AttributeError, self, w1)
                   | Some receipt \<Rightarrow>
                       (case (if ots_file receipt \<noteq> []
                              then shutil_copy (ots_file receipt) package_dir w1
                              else Inr w1) of
                          Inl e \<Rightarrow> (Inl e, self, w1)
                        | Inr w2 \<Rightarrow>
                            (case now w2 of
                               (t, w3) \<Rightarrow>
                                 (let doc =
                                        \<lparr>title = summary_title,
                                         document_type = ''copyright_proof_package'',
                                         generated_at = isoformat t,
                                         summary_entry = entry,
                                         verification = [instruction_1, instruction_2,
                                                         instruction_3, instruction_4],
                                         legal_notice =
                                           legal_notice_1 @ file_name entry @ legal_notice_2
                                             @ registered_at entry @ legal_notice_3\<rparr>;
                                      summary_path = joinpath package_dir ''SUMMARY.json''
                                  in (Inr package_dir, self,
                                      put summary_path (Json (SummaryDoc doc))
                                        (open_w summary_path w3))))))))"

subsection \<open>\<^verbatim>\<open>retry_pending_files\<close>\<close>

text \<open>
  The inner loop \<^verbatim>\<open>for i, e in enumerate(files): if e["id"] == entry["id"]: ...; break\<close>
  writes the receipt into the first entry with the id.
\<close>

fun set_blockchain :: "int \<Rightarrow> anchor_receipt \<Rightarrow> entry list \<Rightarrow> entry list" where
  "set_blockchain i result [] = []"
| "set_blockchain i result (e # es) =
     (if entry_id e = i
      then e\<lparr>proofs := (proofs e)\<lparr>blockchain := Some result\<rparr>\<rparr> # es
      else e # set_blockchain i result es)"

text \<open>The loop over \<^verbatim>\<open>pending\<close>, with the counters \<^verbatim>\<open>success\<close> and \<^verbatim>\<open>failed\<close>.\<close>

fun retry_loop ::
    "entry list \<Rightarrow> protector \<Rightarrow> world \<Rightarrow> nat \<Rightarrow> nat \<Rightarrow> protector \<times> world \<times> nat \<times> nat" where
  "retry_loop [] protector w success failed = (protector, w, success, failed)"
| "retry_loop (entry # pending) protector w success failed =
     (case create_timestamp_opentimestamps protector (hash entry)
             (path_stem (file_name entry)) w of
        (Some result, w1) \<Rightarrow>
          retry_loop pending
            (protector\<lparr>registry := (registry protector)
               \<lparr>files := set_blockchain (entry_id entry) result (files (registry protector))\<rparr>\<rparr>)
            w1 (success + 1) failed
      | (None, w1) \<Rightarrow> retry_loop pending protector w1 success (failed + 1))"

text \<open>
  The function returns nothing; the model returns the counters it prints, or \<open>None\<close>
  when it returns early because nothing is pending.
\<close>

definition retry_pending_files :: "path \<Rightarrow> world \<Rightarrow> (error + (nat \<times> nat) option) \<times> world" where
  "retry_pending_files dir w =
     (case CopyrightProtector dir w of
        (Inl e, w1) \<Rightarrow> (Inl e, w1)
      | (Inr protector, w1) \<Rightarrow>
          (let pending = filter (\<lambda>entry. blockchain (proofs entry) = None)
                           (files (registry protector))
           in if pending = [] then (Inr None, w1)
              else
                (case retry_loop pending protector w1 0 0 of
                   (protector1, w2, success, failed) \<Rightarrow>
                     (case save_registry protector1 w2 of
                        (protector2, w3) \<Rightarrow> (Inr (Some (success, failed)), w3)))))"

section \<open>Notions used in the properties\<close>

text \<open>A Unicode scalar value: a code point that is not a surrogate.\<close>

definition scalar :: "nat \<Rightarrow> bool" where
  "scalar c \<longleftrightarrow> c < 0xD800 \<or> (0xE000 \<le> c \<and> c < 0x110000)"

text \<open>
  The submission of a fingerprint fails: the fingerprint is not hexadecimal, or the
  server's answer to the next request is a transport error or another exception.
\<close>

definition submission_fails :: "world \<Rightarrow> string \<Rightarrow> bool" where
  "submission_fails w file_hash =
     (case fromhex file_hash of
        None \<Rightarrow> True
      | Some hash_bytes \<Rightarrow>
          (case net w (length (requests w)) hash_bytes of
             Response body \<Rightarrow> False
           | URLError \<Rightarrow> True
           | OtherException \<Rightarrow> True))"

text \<open>An entry with its blockchain proof blanked: all that an anchor update must keep.\<close>

definition without_receipt :: "entry \<Rightarrow> entry" where
  "without_receipt e = e\<lparr>proofs := (proofs e)\<lparr>blockchain := None\<rparr>\<rparr>"

text \<open>Where the receipt of an entry is stored.\<close>

definition ots_path :: "protector \<Rightarrow> entry \<Rightarrow> path" where
  "ots_path protector entry =
     joinpath (proofs_dir protector)
       (path_stem (file_name entry) @ ''_'' @ take 16 (hash entry) @ ''.ots'')"

text \<open>The timestamping server answers every request.\<close>

definition always_answers :: "world \<Rightarrow> bool" where
  "always_answers w \<longleftrightarrow> (\<forall>n d. \<exists>body. net w n d = Response body)"

subsection \<open>Example states\<close>

text \<open>
  A store with a file holding \<^verbatim>\<open>abc\<close> and a file holding the byte 0xFF, which is not
  UTF-8; a server that is unreachable (\<open>offline_world\<close>) or answers every request
  (\<open>online_world\<close>); and a protector whose ledger is given.
\<close>

definition example_clock :: "nat \<Rightarrow> datetime" where
  "example_clock n = \<lparr>isoformat = ''2025-01-01T00:00:00'', unix_time = 1735689600\<rparr>"

definition offline_world :: world where
  "offline_world =
     \<lparr>fs = [''/site/abc.html'' \<mapsto> Bytes [0x61, 0x62, 0x63],
            ''/site/bad.html'' \<mapsto> Bytes [0xFF]],
      cwd = ''/site'',
      clock = example_clock,
      ticks = 0,
      net = (\<lambda>n d. URLError),
      requests = [],
      writes = [],
      json_bytes = (\<lambda>doc. []),
      json_dumps_sorted = (\<lambda>doc. ''{}'')\<rparr>"

definition online_world :: world where
  "online_world = offline_world\<lparr>net := (\<lambda>n d. Response [0x00])\<rparr>"

definition abc_hash :: string where
  "abc_hash = ''ba7816bf8f01cfea414140de5dae2223b00361a396177a9cb410ff61f20015ad''"

definition abc_entry :: "anchor_receipt option \<Rightarrow> entry" where
  "abc_entry receipt =
     \<lparr>entry_id = 1,
      file_name = ''abc.html'',
      original_path = ''/site/abc.html'',
      hash = abc_hash,
      hash_algorithm = ''SHA-256'',
      registered_at = ''2025-01-01T00:00:00'',
      project = None,
      client = None,
      description = None,
      proofs = \<lparr>local = \<lparr>proof_file = ''/vault/proofs/abc_ba7816bf8f01cfea_proof.json'',
                         proof_hash = abc_hash\<rparr>,
                blockchain = receipt\<rparr>,
      status = ''protected''\<rparr>"

definition vault :: "entry list \<Rightarrow> protector" where
  "vault es =
     \<lparr>base_dir = ''/vault'',
      proofs_dir = ''/vault/proofs'',
      logs_dir = ''/vault/logs'',
      registry_file = ''/vault/registry.json'',
      registry = \<lparr>files = es, created = ''2025-01-01T00:00:00'', updated = None\<rparr>\<rparr>"

definition example_receipt :: anchor_receipt where
  "example_receipt =
     \<lparr>ots_service = ''OpenTimestamps'',
      ots_blockchain = ''Bitcoin'',
      ots_file = ''/vault/proofs/abc_ba7816bf8f01cfea.ots'',
      ots_verification_url = ''https://opentimestamps.org/'',
      ots_status = ''pending_confirmation'',
      ots_note = ots_note_text\<rparr>"

text \<open>
  \<open>ledger_world es\<close> has the ledger with the entries \<open>es\<close> on disk and a server that
  answers; \<open>protected_world\<close> has the proof files of the entry for \<^verbatim>\<open>abc.html\<close>.
\<close>

definition ledger_world :: "entry list \<Rightarrow> world" where
  "ledger_world es =
     online_world\<lparr>fs := (fs online_world)
       (''/vault/registry.json'' \<mapsto> Json (RegistryDoc (registry (vault es))))\<rparr>"

definition protected_world :: world where
  "protected_world =
     offline_world\<lparr>fs := (fs offline_world)
       (''/vault/proofs/abc_ba7816bf8f01cfea_proof.json'' \<mapsto> Bytes [0x7B, 0x7D],
        ''/vault/proofs/abc_ba7816bf8f01cfea.ots'' \<mapsto> Bytes [0x00])\<rparr>"

section \<open>Hasher: streaming agrees with hashing at once\<close>

text \<open>
  The model of \<^verbatim>\<open>hashlib\<close> computes SHA-256: the test vector of FIPS 180-4 for the
  message \<^verbatim>\<open>abc\<close>.
\<close>

lemma sha256_abc:
  "hex (sha256 [0x61, 0x62, 0x63]) =
     ''ba7816bf8f01cfea414140de5dae2223b00361a396177a9cb410ff61f20015ad''"
  by code_simp

text \<open>Feeding two pieces is feeding their concatenation: full blocks are compressed as
  they come, the rest waits in the buffer.\<close>

lemma absorb_append:
  "absorb hs (a @ b) = (case absorb hs a of (hs', r) \<Rightarrow> absorb hs' (r @ b))"
proof (induction hs a rule: absorb.induct)
  case (1 hs bs)
  show ?case
  proof (cases "length bs < 64")
    case True
    then show ?thesis by (simp add: absorb.simps [of hs bs])
  next
    case False
    then have "absorb hs (bs @ b) = absorb (compress hs (take 64 bs)) (drop 64 bs @ b)"
      by (simp add: absorb.simps [of hs "bs @ b"])
    with False 1 show ?thesis by (simp add: absorb.simps [of hs bs])
  qed
qed

lemma update_update: "update (update obj a) b = update obj (a @ b)"
  by (simp add: update_def absorb_append [of _ "buffered obj @ a" b, simplified]
      split: prod.splits)

text \<open>What is still buffered is compressed with the padding when the digest is taken.\<close>

lemma absorb_blocks:
  "(case absorb hs m of (hs', r) \<Rightarrow> foldl compress hs' (blocks (r @ p))) =
     foldl compress hs (blocks (m @ p))"
proof (induction hs m rule: absorb.induct)
  case (1 hs bs)
  show ?case
  proof (cases "length bs < 64")
    case True
    then show ?thesis by (simp add: absorb.simps [of hs bs])
  next
    case False
    then have "blocks (bs @ p) = take 64 bs # blocks (drop 64 bs @ p)"
      by (subst blocks.simps) auto
    with False 1 show ?thesis by (simp add: absorb.simps [of hs bs])
  qed
qed

lemma digest_update: "digest (update hashlib_sha256 m) = sha256 m"
  using absorb_blocks [where hs = sha256_H0 and m = m and p = "padding (length m)"]
  by (simp add: digest_def update_def hashlib_sha256_def sha256_def split: prod.splits)

lemma digest_new: "digest hashlib_sha256 = sha256 []"
  by (simp add: digest_def hashlib_sha256_def sha256_def)

text \<open>The reading loop feeds the whole file, 4096 bytes at a time.\<close>

lemma read_blocks_update:
  "read_blocks obj f = (if f = [] then obj else update obj f)"
proof (induction obj f rule: read_blocks.induct)
  case (1 obj f)
  show ?case
  proof (cases "f = []")
    case True
    then show ?thesis by (simp add: read_blocks.simps [of obj "[]"])
  next
    case False
    then have ne: "take 4096 f \<noteq> []" by simp
    have "read_blocks obj f = read_blocks (update obj (take 4096 f)) (drop 4096 f)"
      using ne by (simp add: read_blocks.simps [of obj f] Let_def)
    also have "\<dots> = (if drop 4096 f = [] then update obj (take 4096 f)
        else update (update obj (take 4096 f)) (drop 4096 f))"
      using 1 ne by simp
    also have "\<dots> = update obj f"
    proof (cases "drop 4096 f = []")
      case True
      then show ?thesis by simp
    next
      case False
      then show ?thesis by (simp add: update_update)
    qed
    finally show ?thesis using False by simp
  qed
qed

lemma hexdigest_read_blocks: "hexdigest (read_blocks hashlib_sha256 f) = hex (sha256 f)"
  by (simp add: read_blocks_update hexdigest_def digest_update digest_new)

lemma calculate_hash_sha256:
  "calculate_hash file_path w =
     (case fs w file_path of
        None \<Rightarrow> Inl FileNotFoundError
      | Some d \<Rightarrow> Inr (hex (sha256 (file_bytes w d))))"
  by (simp add: calculate_hash_def hexdigest_read_blocks split: option.splits)

text \<open>
  C5. The fingerprint \<^verbatim>\<open>calculate_hash\<close> streams out of a file in 4096-byte reads is the
  SHA-256 digest of the file's whole content hashed at once: the digest the standard
  defines, which is also what \<^verbatim>\<open>hashlib.sha256(data).hexdigest()\<close> of
  \<^verbatim>\<open>calculate_content_hash\<close> returns for the same bytes. Chunking does not show in the
  result.
\<close>

theorem calculate_hash_chunking_refines_sha256:
  "calculate_hash file_path w =
     (case fs w file_path of
        None \<Rightarrow> Inl FileNotFoundError
      | Some d \<Rightarrow> Inr (hex (sha256 (file_bytes w d))))
   \<and> hexdigest (read_blocks hashlib_sha256 content) = hex (sha256 content)
   \<and> hexdigest (read_blocks hashlib_sha256 content) = hexdigest (update hashlib_sha256 content)
   \<and> calculate_content_hash text =
       (case utf8_encode text of
          None \<Rightarrow> Inl UnicodeEncodeError
        | Some bs \<Rightarrow> Inr (hex (sha256 bs)))"
  by (simp add: calculate_hash_def calculate_content_hash_def read_blocks_update
      hexdigest_def digest_update digest_new split: option.splits)

section \<open>Text: what decodes can be encoded again\<close>

lemma encode_cp_scalar: "scalar c \<Longrightarrow> \<exists>bs. encode_cp c = Some bs"
  unfolding scalar_def encode_cp_def by (simp split: if_splits) linarith

lemma utf8_encode_scalar: "list_all scalar cs \<Longrightarrow> \<exists>bs. utf8_encode cs = Some bs"
proof (induction cs)
  case Nil
  then show ?case by simp
next
  case (Cons c cs)
  then obtain bs rest where "encode_cp c = Some bs" "utf8_encode cs = Some rest"
    using encode_cp_scalar [of c] by auto
  then show ?case by simp
qed

lemma calculate_content_hash_scalar:
  "list_all scalar cs \<Longrightarrow> \<exists>h. calculate_content_hash cs = Inr h"
  using utf8_encode_scalar [of cs] by (auto simp: calculate_content_hash_def)

lemma of_char_scalar: "list_all scalar (map of_char s)"
proof -
  have "(of_char c :: nat) < 256" for c
    by (metis of_char_mod_256 mod_less_divisor zero_less_numeral)
  then have "scalar (of_char c)" for c
    unfolding scalar_def by (intro disjI1) (rule less_trans [where y = 256], simp_all)
  then show ?thesis by (simp add: list_all_iff)
qed


lemma scalar_10: "scalar 10"
  by (simp add: scalar_def)

lemma universal_newlines_scalar:
  "list_all scalar cs \<Longrightarrow> list_all scalar (universal_newlines cs)"
proof (induction cs rule: universal_newlines.induct)
  case 1
  then show ?case by simp
next
  case (2 c cs)
  show ?case
  proof (cases "c = 13")
    case False
    with 2 show ?thesis by simp
  next
    case True
    show ?thesis
    proof (cases cs)
      case Nil
      with True show ?thesis by (simp add: scalar_10)
    next
      case (Cons d r)
      with True 2 show ?thesis by (cases "d = 10") (simp_all add: scalar_10)
    qed
  qed
qed

lemma decode_one_scalar:
  assumes "decode_one b bs = Some (c, r)"
  shows "scalar c"
proof -
  consider (one) "b < 0x80" | (two) "0xC2 \<le> b" "b \<le> 0xDF"
    | (three) "0xE0 \<le> b" "b \<le> 0xEF" | (four) "0xF0 \<le> b" "b \<le> 0xF4"
    | (bad) "0x80 \<le> b" "b < 0xC2" | (worse) "0xF4 < b"
    by linarith
  then show ?thesis
  proof cases
    case one
    with assms show ?thesis by (simp add: decode_one_def scalar_def)
  next
    case two
    with assms obtain c1 where "continuation c1" "c = (b - 0xC0) * 64 + (c1 - 0x80)"
      by (auto simp: decode_one_def split: list.splits if_splits)
    with two show ?thesis unfolding scalar_def continuation_def by linarith
  next
    case three
    with assms obtain c1 c2 where s: "second_of_3 b c1" "continuation c2"
      and c: "c = (b - 0xE0) * 4096 + (c1 - 0x80) * 64 + (c2 - 0x80)"
      by (simp add: decode_one_def split: list.splits if_splits)
    from s have c1: "0x80 \<le> c1" "c1 \<le> 0xBF"
      by (auto simp: second_of_3_def continuation_def split: if_splits)
    show ?thesis
    proof (cases "b = 0xED")
      case True
      with s have "c1 \<le> 0x9F" by (simp add: second_of_3_def)
      with True c s(2) c1 have "c < 0xD800" unfolding continuation_def by linarith
      then show ?thesis by (simp add: scalar_def)
    next
      case False
      with three have "b < 0xED \<or> 0xEE \<le> b" by linarith
      then show ?thesis
      proof
        assume "b < 0xED"
        with three c c1 s(2) have "c < 0xD800" unfolding continuation_def by linarith
        then show ?thesis by (simp add: scalar_def)
      next
        assume "0xEE \<le> b"
        with three c c1 s(2) have "0xE000 \<le> c \<and> c < 0x110000"
          unfolding continuation_def by linarith
        then show ?thesis by (simp add: scalar_def)
      qed
    qed
  next
    case four
    with assms obtain c1 c2 c3 where s: "second_of_4 b c1" "continuation c2" "continuation c3"
      and c: "c = (b - 0xF0) * 262144 + (c1 - 0x80) * 4096 + (c2 - 0x80) * 64 + (c3 - 0x80)"
      by (simp add: decode_one_def split: list.splits if_splits)
    from s have c1: "0x80 \<le> c1" "c1 \<le> 0xBF"
      by (auto simp: second_of_4_def continuation_def split: if_splits)
    have lo: "0x10000 \<le> c"
    proof (cases "b = 0xF0")
      case True
      with s have "0x90 \<le> c1" by (simp add: second_of_4_def)
      with c True show ?thesis by linarith
    next
      case False
      with four have "0xF1 \<le> b" by linarith
      with c show ?thesis by linarith
    qed
    have hi: "c < 0x110000"
    proof (cases "b = 0xF4")
      case True
      with s have "c1 \<le> 0x8F" by (simp add: second_of_4_def)
      with c True s(2,3) show ?thesis unfolding continuation_def by linarith
    next
      case False
      with four have "b \<le> 0xF3" by linarith
      with c c1 s(2,3) show ?thesis unfolding continuation_def by linarith
    qed
    from lo hi show ?thesis by (simp add: scalar_def)
  next
    case bad
    with assms show ?thesis by (simp add: decode_one_def)
  next
    case worse
    with assms show ?thesis by (simp add: decode_one_def)
  qed
qed

lemma decode_utf8_scalar: "decode_utf8 bs = Some cs \<Longrightarrow> list_all scalar cs"
proof (induction bs arbitrary: cs rule: decode_utf8.induct)
  case 1
  then show ?case by simp
next
  case (2 b bs)
  from "2.prems" obtain c r cs' where one: "decode_one b bs = Some (c, r)"
    and rest: "decode_utf8 r = Some cs'" and cs: "cs = c # cs'"
    by (auto split: option.splits)
  from one have "scalar c" by (rule decode_one_scalar)
  moreover from "2.IH" one rest have "list_all scalar cs'" by simp
  ultimately show ?case using cs by simp
qed

lemma read_text_scalar: "read_text bs = Some content \<Longrightarrow> list_all scalar content"
  by (auto simp: read_text_def dest: decode_utf8_scalar intro: universal_newlines_scalar)

lemma list_all_take: "list_all P xs \<Longrightarrow> list_all P (take n xs)"
  by (auto simp: list_all_iff dest: in_set_takeD)

lemma list_all_drop: "list_all P xs \<Longrightarrow> list_all P (drop n xs)"
  by (auto simp: list_all_iff dest: in_set_dropD)

lemma calculate_content_hash_Inr:
  "list_all scalar cs \<Longrightarrow>
     calculate_content_hash cs = Inr (hex (sha256 (the (utf8_encode cs))))"
  using utf8_encode_scalar [of cs]
  by (auto simp: calculate_content_hash_def hexdigest_def digest_update)

lemma save_registry_eq:
  "save_registry self w =
     (self\<lparr>registry := (registry self)\<lparr>updated := Some (isoformat (clock w (ticks w)))\<rparr>\<rparr>,
      w\<lparr>ticks := Suc (ticks w),
        fs := (fs w)(registry_file self \<mapsto>
                Json (RegistryDoc
                  ((registry self)\<lparr>updated := Some (isoformat (clock w (ticks w)))\<rparr>))),
        writes := writes w @ [registry_file self]\<rparr>)"
  by (simp add: save_registry_def save_registry_opened_def stamp_registry_def now_def
      open_w_def put_def)

lemma create_timestamp_fails:
  assumes "submission_fails w file_hash"
  shows "create_timestamp_opentimestamps self file_hash name w =
     (None, case fromhex file_hash of
              None \<Rightarrow> w
            | Some hash_bytes \<Rightarrow> w\<lparr>requests := requests w @ [hash_bytes]\<rparr>)"
  using assms
  by (simp add: create_timestamp_opentimestamps_def submission_fails_def Let_def
      split: option.splits http_result.splits)

lemma create_local_proof_undecodable:
  assumes "fs w file_path = Some d" and "read_text (file_bytes w d) = None"
  shows "create_local_proof self file_path file_hash w = (Inl UnicodeDecodeError, w)"
  using assms by (simp add: create_local_proof_def)

lemma create_local_proof_decodable:
  assumes "fs w file_path = Some d" and "read_text (file_bytes w d) = Some content"
  shows "\<exists>lp w1. create_local_proof self file_path file_hash w = (Inr lp, w1)
           \<and> net w1 = net w \<and> requests w1 = requests w \<and> cwd w1 = cwd w"
proof -
  from assms(2) have sc: "list_all scalar content" by (rule read_text_scalar)
  then have "list_all scalar (take 100 content)"
    and "list_all scalar (drop (length content - 100) content)"
    by (simp_all add: list_all_take list_all_drop)
  then show ?thesis
    using assms
    by (simp add: create_local_proof_def calculate_content_hash_Inr of_char_scalar
        now_def Let_def open_w_def put_def)
qed

section \<open>Protection is idempotent\<close>

lemma calculate_hash_Inr_exists: "calculate_hash p w = Inr fp \<Longrightarrow> fs w p \<noteq> None"
  by (auto simp: calculate_hash_def split: option.splits)

lemma protect_file_registered:
  assumes "calculate_hash p w = Inr fp"
    and "find (\<lambda>entry. hash entry = fp) (files (registry self)) = Some entry"
  shows "protect_file p pn cn ds self w = (Inr entry, self, w)"
  using assms calculate_hash_Inr_exists [OF assms(1)]
  by (simp add: protect_file_def)

lemma find_hash_in_set:
  assumes "e \<in> set es" and "hash e = fp"
  shows "\<exists>entry. find (\<lambda>entry. hash entry = fp) es = Some entry \<and> entry \<in> set es
           \<and> hash entry = fp"
proof (cases "find (\<lambda>entry. hash entry = fp) es")
  case None
  with assms show ?thesis by (auto simp: find_None_iff)
next
  case (Some entry)
  then show ?thesis by (auto simp: find_Some_iff)
qed

lemma find_append_cases:
  "find P (xs @ ys) = (case find P xs of None \<Rightarrow> find P ys | Some x \<Rightarrow> Some x)"
  by (induction xs) auto

lemma protect_file_new:
  assumes fl: "fs w p = Some d"
    and new: "find (\<lambda>entry. hash entry = hex (sha256 (file_bytes w d))) (files (registry self)) = None"
    and lp: "create_local_proof self p (hex (sha256 (file_bytes w d))) w = (Inr lp, w1)"
    and bp: "create_timestamp_opentimestamps self (hex (sha256 (file_bytes w d))) (path_stem p) w1
               = (bp, w2)"
  shows "\<exists>entry self' w'. protect_file p pn cn ds self w = (Inr entry, self', w')
           \<and> files (registry self') = files (registry self) @ [entry]
           \<and> entry_id entry = int (length (files (registry self))) + 1
           \<and> hash entry = hex (sha256 (file_bytes w d))
           \<and> proofs entry = \<lparr>local = lp, blockchain = bp\<rparr>
           \<and> status entry = ''protected''
           \<and> registry_file self' = registry_file self
           \<and> fs w' = (fs w2)(registry_file self \<mapsto> Json (RegistryDoc (registry self')))
           \<and> writes w' = writes w2 @ [registry_file self]
           \<and> requests w' = requests w2"
  using assms
  by (simp add: protect_file_def calculate_hash_sha256 save_registry_eq now_def Let_def)

lemma protect_file_twice:
  assumes first: "protect_file p pn cn ds self w = (Inr entry, self', w')"
    and same: "calculate_hash p w' = calculate_hash p w"
  shows "protect_file p pn' cn' ds' self' w' = (Inr entry, self', w')"
proof -
  from first obtain d where fl: "fs w p = Some d"
    by (auto simp: protect_file_def split: if_splits)
  let ?fp = "hex (sha256 (file_bytes w d))"
  from fl have fp: "calculate_hash p w = Inr ?fp" by (simp add: calculate_hash_sha256)
  show ?thesis
  proof (cases "find (\<lambda>entry. hash entry = ?fp) (files (registry self))")
    case (Some e)
    with fp first have "entry = e" "self' = self" "w' = w"
      by (simp_all add: protect_file_registered)
    with Some fp show ?thesis by (simp add: protect_file_registered)
  next
    case None
    obtain r1 w1 where lp: "create_local_proof self p ?fp w = (r1, w1)"
      by (cases "create_local_proof self p ?fp w")
    with first fl None obtain lp where r1: "r1 = Inr lp"
      by (cases r1) (auto simp: protect_file_def calculate_hash_sha256)
    obtain bp w2 where bp: "create_timestamp_opentimestamps self ?fp (path_stem p) w1 = (bp, w2)"
      by (cases "create_timestamp_opentimestamps self ?fp (path_stem p) w1")
    from protect_file_new [OF fl None lp [unfolded r1] bp, of pn cn ds] first
    have files: "files (registry self') = files (registry self) @ [entry]"
      and hash: "hash entry = ?fp"
      by auto
    from None have "\<forall>e \<in> set (files (registry self)). hash e \<noteq> ?fp"
      by (simp add: find_None_iff)
    with files hash have "find (\<lambda>entry. hash entry = ?fp) (files (registry self')) = Some entry"
      using None by (simp add: find_append_cases)
    moreover from same fp have "calculate_hash p w' = Inr ?fp" by simp
    ultimately show ?thesis by (rule protect_file_registered [rotated])
  qed
qed

lemma calculate_hash_abc: "calculate_hash ''/site/abc.html'' offline_world = Inr abc_hash"
  by (simp add: calculate_hash_sha256 offline_world_def file_bytes_def sha256_abc abc_hash_def)

text \<open>
  C1. When the fingerprint of the file is the \<^verbatim>\<open>hash\<close> of an entry of the registry,
  \<^verbatim>\<open>protect_file\<close> returns an entry of the registry with that hash (the first one) and
  leaves the object and the world as they were: nothing is appended, no proof is
  written, nothing is sent to the server, the ledger is not saved. And when a call has
  returned an entry, a second call on the same content, whatever the metadata, returns
  that entry again and changes nothing.
\<close>

theorem protect_file_idempotent:
  "(calculate_hash file_path w = Inr file_hash \<and> existing \<in> set (files (registry self))
      \<and> hash existing = file_hash
      \<longrightarrow> (\<exists>entry \<in> set (files (registry self)). hash entry = file_hash
             \<and> protect_file file_path pn cn ds self w = (Inr entry, self, w)))
   \<and> (protect_file file_path pn cn ds self w = (Inr entry, self', w')
      \<and> calculate_hash file_path w' = calculate_hash file_path w
      \<longrightarrow> protect_file file_path pn' cn' ds' self' w' = (Inr entry, self', w'))"
proof (intro conjI impI)
  assume a: "calculate_hash file_path w = Inr file_hash \<and> existing \<in> set (files (registry self))
      \<and> hash existing = file_hash"
  then obtain entry where "find (\<lambda>entry. hash entry = file_hash) (files (registry self)) = Some entry"
    and "entry \<in> set (files (registry self))" and "hash entry = file_hash"
    using find_hash_in_set by blast
  with a show "\<exists>entry \<in> set (files (registry self)). hash entry = file_hash
             \<and> protect_file file_path pn cn ds self w = (Inr entry, self, w)"
    by (auto simp: protect_file_registered)
next
  assume "protect_file file_path pn cn ds self w = (Inr entry, self', w')
      \<and> calculate_hash file_path w' = calculate_hash file_path w"
  then show "protect_file file_path pn' cn' ds' self' w' = (Inr entry, self', w')"
    by (auto intro: protect_file_twice)
qed

theorem protect_file_idempotent_witness:
  "calculate_hash ''/site/abc.html'' offline_world = Inr abc_hash
   \<and> abc_entry None \<in> set (files (registry (vault [abc_entry None])))
   \<and> hash (abc_entry None) = abc_hash
   \<and> protect_file ''/site/abc.html'' None None None (vault [abc_entry None]) offline_world
       = (Inr (abc_entry None), vault [abc_entry None], offline_world)
   \<and> protect_file ''/site/abc.html'' (Some ''again'') None None (vault [abc_entry None])
         offline_world
       = (Inr (abc_entry None), vault [abc_entry None], offline_world)"
proof -
  have h: "calculate_hash ''/site/abc.html'' offline_world = Inr abc_hash"
    by (rule calculate_hash_abc)
  have m: "abc_entry None \<in> set (files (registry (vault [abc_entry None])))"
    by (simp add: vault_def)
  have e: "hash (abc_entry None) = abc_hash"
    by (simp add: abc_entry_def)
  from protect_file_idempotent [of "''/site/abc.html''" offline_world abc_hash "abc_entry None"
      "vault [abc_entry None]" None None None]
    h m e
  have first: "protect_file ''/site/abc.html'' None None None (vault [abc_entry None])
      offline_world = (Inr (abc_entry None), vault [abc_entry None], offline_world)"
    by (auto simp: vault_def)
  from protect_file_idempotent [of "''/site/abc.html''" offline_world abc_hash "abc_entry None"
      "vault [abc_entry None]" None None None "abc_entry None" "vault [abc_entry None]"
      offline_world "Some ''again''" None None] first
  have "protect_file ''/site/abc.html'' (Some ''again'') None None (vault [abc_entry None])
      offline_world = (Inr (abc_entry None), vault [abc_entry None], offline_world)"
    by simp
  with h m e first show ?thesis by simp
qed

section \<open>Anchoring is best effort\<close>

lemma submission_fails_cong:
  "net w1 = net w \<Longrightarrow> requests w1 = requests w \<Longrightarrow>
     submission_fails w1 h = submission_fails w h"
  by (simp add: submission_fails_def split: option.splits)

text \<open>
  C2. A submission that fails gives no receipt and no exception:
  \<^verbatim>\<open>create_timestamp_opentimestamps\<close> returns \<^verbatim>\<open>None\<close>. And \<^verbatim>\<open>protect_file\<close> on a
  file that is not yet registered and decodes as UTF-8 (so that the submission is
  reached) still succeeds when the submission fails: it returns the new entry, with
  no blockchain proof and status \<^verbatim>\<open>protected\<close>, appended to the registry and saved.
\<close>

theorem anchor_failure_is_tolerated:
  "(submission_fails w file_hash
      \<longrightarrow> fst (create_timestamp_opentimestamps self file_hash name w) = None)
   \<and> (fs w file_path = Some d \<and> read_text (file_bytes w d) = Some content
       \<and> find (\<lambda>entry. hash entry = hex (sha256 (file_bytes w d))) (files (registry self)) = None
       \<and> submission_fails w (hex (sha256 (file_bytes w d)))
      \<longrightarrow> (\<exists>entry self' w'.
             protect_file file_path pn cn ds self w = (Inr entry, self', w')
             \<and> blockchain (proofs entry) = None
             \<and> status entry = ''protected''
             \<and> files (registry self') = files (registry self) @ [entry]
             \<and> fs w' (registry_file self) = Some (Json (RegistryDoc (registry self')))))"
proof (intro conjI impI)
  assume "submission_fails w file_hash"
  then show "fst (create_timestamp_opentimestamps self file_hash name w) = None"
    by (simp add: create_timestamp_fails)
next
  let ?fp = "hex (sha256 (file_bytes w d))"
  assume a: "fs w file_path = Some d \<and> read_text (file_bytes w d) = Some content
       \<and> find (\<lambda>entry. hash entry = ?fp) (files (registry self)) = None
       \<and> submission_fails w ?fp"
  then have fl: "fs w file_path = Some d"
    and rt: "read_text (file_bytes w d) = Some content"
    and nw: "find (\<lambda>entry. hash entry = ?fp) (files (registry self)) = None"
    and sf: "submission_fails w ?fp"
    by simp_all
  from create_local_proof_decodable [OF fl rt, of self ?fp]
  obtain lp w1 where lp: "create_local_proof self file_path ?fp w = (Inr lp, w1)"
    and same: "net w1 = net w" "requests w1 = requests w"
    by (elim exE conjE)
  from sf submission_fails_cong [OF same, of ?fp] have "submission_fails w1 ?fp" by simp
  then obtain w2 where
    bp: "create_timestamp_opentimestamps self ?fp (path_stem file_path) w1 = (None, w2)"
    by (simp add: create_timestamp_fails)
  from protect_file_new [OF fl nw lp bp, of pn cn ds]
  obtain entry self' w' where "protect_file file_path pn cn ds self w = (Inr entry, self', w')"
    and "files (registry self') = files (registry self) @ [entry]"
    and "proofs entry = \<lparr>local = lp, blockchain = None\<rparr>"
    and "status entry = ''protected''"
    and "registry_file self' = registry_file self"
    and "fs w' = (fs w2)(registry_file self \<mapsto> Json (RegistryDoc (registry self')))"
    by (elim exE conjE)
  then show "\<exists>entry self' w'.
             protect_file file_path pn cn ds self w = (Inr entry, self', w')
             \<and> blockchain (proofs entry) = None
             \<and> status entry = ''protected''
             \<and> files (registry self') = files (registry self) @ [entry]
             \<and> fs w' (registry_file self) = Some (Json (RegistryDoc (registry self')))"
    by (intro exI [of _ entry] exI [of _ self'] exI [of _ w']) simp
qed

lemma read_text_abc: "read_text [0x61, 0x62, 0x63] = Some [97, 98, 99]"
  by (simp add: read_text_def decode_one_def)

lemma fromhex_abc_hash: "fromhex abc_hash \<noteq> None"
  by (simp add: abc_hash_def isspace_def hexval_def)

theorem anchor_failure_is_tolerated_witness:
  "submission_fails offline_world abc_hash
   \<and> fst (create_timestamp_opentimestamps (vault []) abc_hash ''abc'' offline_world) = None
   \<and> fs offline_world ''/site/abc.html'' = Some (Bytes [0x61, 0x62, 0x63])
   \<and> read_text (file_bytes offline_world (Bytes [0x61, 0x62, 0x63])) = Some [97, 98, 99]
   \<and> find (\<lambda>entry. hash entry = hex (sha256 (file_bytes offline_world (Bytes [0x61, 0x62, 0x63]))))
         (files (registry (vault []))) = None
   \<and> submission_fails offline_world
         (hex (sha256 (file_bytes offline_world (Bytes [0x61, 0x62, 0x63]))))
   \<and> (\<exists>entry self' w'.
         protect_file ''/site/abc.html'' None None None (vault []) offline_world
           = (Inr entry, self', w')
         \<and> blockchain (proofs entry) = None
         \<and> status entry = ''protected''
         \<and> files (registry self') = files (registry (vault [])) @ [entry]
         \<and> fs w' (registry_file (vault [])) = Some (Json (RegistryDoc (registry self'))))"
proof -
  have f: "submission_fails offline_world h" for h
    by (simp add: submission_fails_def offline_world_def split: option.splits)
  have s: "fs offline_world ''/site/abc.html'' = Some (Bytes [0x61, 0x62, 0x63])"
    by (simp add: offline_world_def)
  have r: "read_text (file_bytes offline_world (Bytes [0x61, 0x62, 0x63])) = Some [97, 98, 99]"
    by (simp add: file_bytes_def read_text_abc)
  have n: "find (\<lambda>entry. hash entry = hex (sha256 (file_bytes offline_world (Bytes [0x61, 0x62, 0x63]))))
         (files (registry (vault []))) = None"
    by (simp add: vault_def)
  note t = anchor_failure_is_tolerated [of offline_world abc_hash "vault []" "''abc''"
      "''/site/abc.html''" "Bytes [0x61, 0x62, 0x63]" "[97, 98, 99]" None None None]
  have c1:
    "fst (create_timestamp_opentimestamps (vault []) abc_hash ''abc'' offline_world) = None"
    by (rule t [THEN conjunct1, THEN mp, OF f])
  have c2: "\<exists>entry self' w'.
         protect_file ''/site/abc.html'' None None None (vault []) offline_world
           = (Inr entry, self', w')
         \<and> blockchain (proofs entry) = None
         \<and> status entry = ''protected''
         \<and> files (registry self') = files (registry (vault [])) @ [entry]
         \<and> fs w' (registry_file (vault [])) = Some (Json (RegistryDoc (registry self')))"
    by (rule t [THEN conjunct2, THEN mp, OF conjI [OF s conjI [OF r conjI [OF n f]]]])
  show ?thesis
    by (intro conjI) (rule f s r n c1 c2)+
qed

section \<open>Only UTF-8 files can be protected\<close>

lemma read_text_None: "read_text bs = None \<longleftrightarrow> decode_utf8 (map unat bs) = None"
  by (simp add: read_text_def)

lemma protect_file_undecodable:
  assumes fl: "fs w file_path = Some d"
    and bad: "decode_utf8 (map unat (file_bytes w d)) = None"
    and nw: "find (\<lambda>entry. hash entry = hex (sha256 (file_bytes w d))) (files (registry self)) = None"
  shows "protect_file file_path pn cn ds self w = (Inl UnicodeDecodeError, self, w)"
  using assms
  by (simp add: protect_file_def calculate_hash_sha256 create_local_proof_undecodable
      read_text_None)

text \<open>
  C10. For a file that exists, is not yet registered and whose bytes do not decode as
  UTF-8, the fingerprint is computed, and then \<^verbatim>\<open>protect_file\<close> fails with
  \<^verbatim>\<open>UnicodeDecodeError\<close> when \<^verbatim>\<open>create_local_proof\<close> reads the file as text: before
  anything is written or appended, so the object and the world are unchanged. Hence
  \<^verbatim>\<open>protect_file\<close> returns a new entry only for files that decode as UTF-8.
\<close>

theorem protect_file_requires_utf8:
  "(fs w file_path = Some d \<and> decode_utf8 (map unat (file_bytes w d)) = None
      \<and> find (\<lambda>entry. hash entry = hex (sha256 (file_bytes w d))) (files (registry self)) = None
     \<longrightarrow> calculate_hash file_path w = Inr (hex (sha256 (file_bytes w d)))
         \<and> protect_file file_path pn cn ds self w = (Inl UnicodeDecodeError, self, w))
   \<and> (fs w file_path = Some d
      \<and> find (\<lambda>entry. hash entry = hex (sha256 (file_bytes w d))) (files (registry self)) = None
      \<and> protect_file file_path pn cn ds self w = (Inr entry, self', w')
     \<longrightarrow> decode_utf8 (map unat (file_bytes w d)) \<noteq> None)"
proof (intro conjI impI)
  assume a: "fs w file_path = Some d \<and> decode_utf8 (map unat (file_bytes w d)) = None
      \<and> find (\<lambda>entry. hash entry = hex (sha256 (file_bytes w d))) (files (registry self)) = None"
  then show "calculate_hash file_path w = Inr (hex (sha256 (file_bytes w d)))"
    by (simp add: calculate_hash_sha256)
  from a have fl: "fs w file_path = Some d"
    and u: "decode_utf8 (map unat (file_bytes w d)) = None"
    and nw: "find (\<lambda>entry. hash entry = hex (sha256 (file_bytes w d)))
               (files (registry self)) = None"
    by simp_all
  show "protect_file file_path pn cn ds self w = (Inl UnicodeDecodeError, self, w)"
    by (rule protect_file_undecodable [OF fl u nw])
next
  assume b: "fs w file_path = Some d
      \<and> find (\<lambda>entry. hash entry = hex (sha256 (file_bytes w d))) (files (registry self)) = None
      \<and> protect_file file_path pn cn ds self w = (Inr entry, self', w')"
  show "decode_utf8 (map unat (file_bytes w d)) \<noteq> None"
  proof
    assume u: "decode_utf8 (map unat (file_bytes w d)) = None"
    from b have fl: "fs w file_path = Some d"
      and nw: "find (\<lambda>entry. hash entry = hex (sha256 (file_bytes w d)))
                 (files (registry self)) = None"
      by simp_all
    from protect_file_undecodable [OF fl u nw, of pn cn ds] b show False by simp
  qed
qed

theorem protect_file_requires_utf8_witness:
  "fs offline_world ''/site/bad.html'' = Some (Bytes [0xFF])
   \<and> decode_utf8 (map unat (file_bytes offline_world (Bytes [0xFF]))) = None
   \<and> find (\<lambda>entry. hash entry = hex (sha256 (file_bytes offline_world (Bytes [0xFF]))))
        (files (registry (vault []))) = None
   \<and> calculate_hash ''/site/bad.html'' offline_world
        = Inr (hex (sha256 (file_bytes offline_world (Bytes [0xFF]))))
   \<and> protect_file ''/site/bad.html'' None None None (vault []) offline_world
        = (Inl UnicodeDecodeError, vault [], offline_world)"
proof -
  have s: "fs offline_world ''/site/bad.html'' = Some (Bytes [0xFF])"
    by (simp add: offline_world_def)
  have u: "decode_utf8 (map unat (file_bytes offline_world (Bytes [0xFF]))) = None"
    by (simp add: file_bytes_def decode_one_def)
  have n: "find (\<lambda>entry. hash entry = hex (sha256 (file_bytes offline_world (Bytes [0xFF]))))
        (files (registry (vault []))) = None"
    by (simp add: vault_def)
  note t = protect_file_requires_utf8 [of offline_world "''/site/bad.html''" "Bytes [0xFF]"
      "vault []" None None None]
  note c = t [THEN conjunct1, THEN mp, OF conjI [OF s conjI [OF u n]]]
  show ?thesis
    by (intro conjI) (rule s u n c [THEN conjunct1] c [THEN conjunct2])+
qed

section \<open>Verification\<close>

text \<open>
  C4. \<^verbatim>\<open>verify_file\<close> changes neither the object nor the world. For a file that can be
  read it recomputes the fingerprint: if an entry of the registry has it as its hash,
  the answer is \<^verbatim>\<open>verified = True\<close> with such an entry (the first); if no entry has
  it, the answer is \<^verbatim>\<open>verified = False\<close> with the fingerprint. A path with no file
  raises \<^verbatim>\<open>FileNotFoundError\<close>.
\<close>

theorem verify_file_correct:
  "snd (verify_file file_path self w) = (self, w)
   \<and> (fs w file_path = Some d \<and> e \<in> set (files (registry self))
        \<and> hash e = hex (sha256 (file_bytes w d))
      \<longrightarrow> (\<exists>entry \<in> set (files (registry self)).
             hash entry = hex (sha256 (file_bytes w d))
             \<and> fst (verify_file file_path self w) =
                 Inr \<lparr>verified = True, message = message_found,
                      found_entry = Some entry, current_hash = None\<rparr>))
   \<and> (fs w file_path = Some d
        \<and> (\<forall>e \<in> set (files (registry self)). hash e \<noteq> hex (sha256 (file_bytes w d)))
      \<longrightarrow> fst (verify_file file_path self w) =
            Inr \<lparr>verified = False, message = message_not_found,
                 found_entry = None, current_hash = Some (hex (sha256 (file_bytes w d)))\<rparr>)
   \<and> (fs w file_path = None \<longrightarrow> fst (verify_file file_path self w) = Inl FileNotFoundError)"
proof (intro conjI impI)
  show "snd (verify_file file_path self w) = (self, w)"
    by (simp add: verify_file_def split: sum.splits option.splits)
next
  let ?fp = "hex (sha256 (file_bytes w d))"
  assume a: "fs w file_path = Some d \<and> e \<in> set (files (registry self)) \<and> hash e = ?fp"
  then obtain entry where f: "find (\<lambda>entry. hash entry = ?fp) (files (registry self)) = Some entry"
    and m: "entry \<in> set (files (registry self))" and h: "hash entry = ?fp"
    using find_hash_in_set [of e "files (registry self)" ?fp] by (elim conjE) (simp, elim exE conjE)
  from a f have "fst (verify_file file_path self w) =
      Inr \<lparr>verified = True, message = message_found,
           found_entry = Some entry, current_hash = None\<rparr>"
    by (simp add: verify_file_def calculate_hash_sha256)
  with m h show "\<exists>entry \<in> set (files (registry self)). hash entry = ?fp
             \<and> fst (verify_file file_path self w) =
                 Inr \<lparr>verified = True, message = message_found,
                      found_entry = Some entry, current_hash = None\<rparr>"
    by (intro bexI [of _ entry]) simp_all
next
  let ?fp = "hex (sha256 (file_bytes w d))"
  assume a: "fs w file_path = Some d
        \<and> (\<forall>e \<in> set (files (registry self)). hash e \<noteq> ?fp)"
  then have "find (\<lambda>entry. hash entry = ?fp) (files (registry self)) = None"
    by (simp add: find_None_iff)
  with a show "fst (verify_file file_path self w) =
            Inr \<lparr>verified = False, message = message_not_found,
                 found_entry = None, current_hash = Some ?fp\<rparr>"
    by (simp add: verify_file_def calculate_hash_sha256)
next
  assume "fs w file_path = None"
  then show "fst (verify_file file_path self w) = Inl FileNotFoundError"
    by (simp add: verify_file_def calculate_hash_sha256)
qed

theorem verify_file_correct_witness:
  "fs offline_world ''/site/abc.html'' = Some (Bytes [0x61, 0x62, 0x63])
   \<and> abc_entry None \<in> set (files (registry (vault [abc_entry None])))
   \<and> hash (abc_entry None) = hex (sha256 (file_bytes offline_world (Bytes [0x61, 0x62, 0x63])))
   \<and> fst (verify_file ''/site/abc.html'' (vault [abc_entry None]) offline_world) =
        Inr \<lparr>verified = True, message = message_found,
             found_entry = Some (abc_entry None), current_hash = None\<rparr>
   \<and> files (registry (vault [])) = []
   \<and> fst (verify_file ''/site/abc.html'' (vault []) offline_world) =
        Inr \<lparr>verified = False, message = message_not_found,
             found_entry = None, current_hash = Some abc_hash\<rparr>
   \<and> fs offline_world ''/site/none.html'' = None
   \<and> fst (verify_file ''/site/none.html'' (vault []) offline_world) = Inl FileNotFoundError
   \<and> snd (verify_file ''/site/abc.html'' (vault [abc_entry None]) offline_world)
        = (vault [abc_entry None], offline_world)"
proof -
  have s: "fs offline_world ''/site/abc.html'' = Some (Bytes [0x61, 0x62, 0x63])"
    by (simp add: offline_world_def)
  have m: "abc_entry None \<in> set (files (registry (vault [abc_entry None])))"
    by (simp add: vault_def)
  have fp: "hex (sha256 (file_bytes offline_world (Bytes [0x61, 0x62, 0x63]))) = abc_hash"
    by (simp add: file_bytes_def sha256_abc abc_hash_def)
  have h: "hash (abc_entry None)
      = hex (sha256 (file_bytes offline_world (Bytes [0x61, 0x62, 0x63])))"
    by (simp add: fp) (simp add: abc_entry_def)
  have e: "files (registry (vault [])) = []"
    by (simp add: vault_def)
  have a: "\<forall>e \<in> set (files (registry (vault []))).
      hash e \<noteq> hex (sha256 (file_bytes offline_world (Bytes [0x61, 0x62, 0x63])))"
    by (simp add: e)
  have n: "fs offline_world ''/site/none.html'' = None"
    by (simp add: offline_world_def)
  note t1 = verify_file_correct [of "''/site/abc.html''" "vault [abc_entry None]" offline_world
      "Bytes [0x61, 0x62, 0x63]" "abc_entry None"]
  note t2 = verify_file_correct [of "''/site/abc.html''" "vault []" offline_world
      "Bytes [0x61, 0x62, 0x63]"]
  note t3 = verify_file_correct [of "''/site/none.html''" "vault []" offline_world]
  from t1 [THEN conjunct2, THEN conjunct1, THEN mp, OF conjI [OF s conjI [OF m h]]]
  have c1: "fst (verify_file ''/site/abc.html'' (vault [abc_entry None]) offline_world) =
        Inr \<lparr>verified = True, message = message_found,
             found_entry = Some (abc_entry None), current_hash = None\<rparr>"
    by (simp add: vault_def)
  from t2 [THEN conjunct2, THEN conjunct2, THEN conjunct1, THEN mp, OF conjI [OF s a]]
  have c2: "fst (verify_file ''/site/abc.html'' (vault []) offline_world) =
        Inr \<lparr>verified = False, message = message_not_found,
             found_entry = None, current_hash = Some abc_hash\<rparr>"
    by (simp add: fp)
  note c3 = t3 [THEN conjunct2, THEN conjunct2, THEN conjunct2, THEN mp, OF n]
  note c4 = t1 [THEN conjunct1]
  show ?thesis
    by (intro conjI) (rule s m h c1 e c2 n c3 c4)+
qed

section \<open>Anchor updates change the receipt only\<close>

lemma length_set_blockchain: "length (set_blockchain i result es) = length es"
  by (induction es) auto

lemma without_receipt_set_blockchain:
  "map without_receipt (set_blockchain i result es) = map without_receipt es"
  by (induction es) (auto simp: without_receipt_def)

lemma set_blockchain_other:
  "k < length es \<Longrightarrow> entry_id (es ! k) \<noteq> i \<Longrightarrow> set_blockchain i result es ! k = es ! k"
proof (induction es arbitrary: k)
  case Nil
  then show ?case by simp
next
  case (Cons e es)
  then show ?case by (cases k) auto
qed

lemma set_blockchain_distinct:
  "distinct (map entry_id es) \<Longrightarrow>
     set_blockchain i result es =
       map (\<lambda>e. if entry_id e = i
                then e\<lparr>proofs := (proofs e)\<lparr>blockchain := Some result\<rparr>\<rparr> else e) es"
proof (induction es)
  case Nil
  then show ?case by simp
next
  case (Cons e es)
  show ?case
  proof (cases "entry_id e = i")
    case True
    with Cons.prems have "\<forall>x \<in> set es. entry_id x \<noteq> i" by (auto simp: image_iff)
    then have "map (\<lambda>e. if entry_id e = i
                then e\<lparr>proofs := (proofs e)\<lparr>blockchain := Some result\<rparr>\<rparr> else e) es = es"
      by (simp add: map_idI)
    with True show ?thesis by simp
  next
    case False
    with Cons show ?thesis by simp
  qed
qed

lemma without_receipt_fields:
  "without_receipt a = without_receipt b \<Longrightarrow>
     entry_id a = entry_id b \<and> file_name a = file_name b \<and> original_path a = original_path b
     \<and> hash a = hash b \<and> hash_algorithm a = hash_algorithm b
     \<and> registered_at a = registered_at b \<and> project a = project b \<and> client a = client b
     \<and> description a = description b \<and> local (proofs a) = local (proofs b)
     \<and> status a = status b"
proof -
  assume eq: "without_receipt a = without_receipt b"
  have f: "entry_id (without_receipt x) = entry_id x \<and> file_name (without_receipt x) = file_name x
     \<and> original_path (without_receipt x) = original_path x
     \<and> hash (without_receipt x) = hash x \<and> hash_algorithm (without_receipt x) = hash_algorithm x
     \<and> registered_at (without_receipt x) = registered_at x
     \<and> project (without_receipt x) = project x \<and> client (without_receipt x) = client x
     \<and> description (without_receipt x) = description x
     \<and> local (proofs (without_receipt x)) = local (proofs x)
     \<and> status (without_receipt x) = status x" for x
    by (simp add: without_receipt_def)
  from f [of a] f [of b] show ?thesis unfolding eq by simp
qed

lemma retry_loop_frame:
  "map without_receipt (files (registry (fst (retry_loop pending protector w success failed))))
     = map without_receipt (files (registry protector))
   \<and> created (registry (fst (retry_loop pending protector w success failed)))
       = created (registry protector)
   \<and> updated (registry (fst (retry_loop pending protector w success failed)))
       = updated (registry protector)"
proof (induction pending arbitrary: protector w success failed)
  case Nil
  then show ?case by simp
next
  case (Cons entry pending)
  show ?case
  proof (cases "create_timestamp_opentimestamps protector (hash entry)
                  (path_stem (file_name entry)) w")
    case (Pair res w1)
    show ?thesis
    proof (cases res)
      case None
      with Pair Cons.IH [of protector w1 success "failed + 1"] show ?thesis by simp
    next
      case (Some result)
      with Pair Cons.IH [of "protector\<lparr>registry := (registry protector)
               \<lparr>files := set_blockchain (entry_id entry) result (files (registry protector))\<rparr>\<rparr>"
          w1 "success + 1" failed]
      show ?thesis by (simp add: without_receipt_set_blockchain)
    qed
  qed
qed

text \<open>
  C7. The update of a retry pass, \<open>set_blockchain i result\<close>, keeps the number of
  entries and every entry up to its blockchain proof: an entry with another id is
  unchanged, and when the ids are distinct the entry with the id \<open>i\<close> is the old one
  with the receipt as its blockchain proof. Two entries that agree up to the blockchain
  proof agree on id, file name, path, hash, algorithm, registration time, project,
  client, description, local proof and status. The same holds for the registry after
  the whole loop of the pass.
\<close>

theorem set_blockchain_frame:
  "length (set_blockchain i result es) = length es
   \<and> map without_receipt (set_blockchain i result es) = map without_receipt es
   \<and> (k < length es \<and> entry_id (es ! k) \<noteq> i \<longrightarrow> set_blockchain i result es ! k = es ! k)
   \<and> (k < length es \<and> entry_id (es ! k) = i \<and> distinct (map entry_id es)
        \<longrightarrow> set_blockchain i result es ! k
              = (es ! k)\<lparr>proofs := (proofs (es ! k))\<lparr>blockchain := Some result\<rparr>\<rparr>)
   \<and> (without_receipt a = without_receipt b
        \<longrightarrow> entry_id a = entry_id b \<and> file_name a = file_name b
            \<and> original_path a = original_path b \<and> hash a = hash b
            \<and> hash_algorithm a = hash_algorithm b \<and> registered_at a = registered_at b
            \<and> project a = project b \<and> client a = client b \<and> description a = description b
            \<and> local (proofs a) = local (proofs b) \<and> status a = status b)
   \<and> map without_receipt (files (registry (fst (retry_loop pending protector w success failed))))
       = map without_receipt (files (registry protector))"
proof (intro conjI impI)
  show "length (set_blockchain i result es) = length es"
    by (rule length_set_blockchain)
  show "map without_receipt (set_blockchain i result es) = map without_receipt es"
    by (rule without_receipt_set_blockchain)
  show "set_blockchain i result es ! k = es ! k"
    if "k < length es \<and> entry_id (es ! k) \<noteq> i"
    using that by (simp add: set_blockchain_other)
  show "set_blockchain i result es ! k
              = (es ! k)\<lparr>proofs := (proofs (es ! k))\<lparr>blockchain := Some result\<rparr>\<rparr>"
    if "k < length es \<and> entry_id (es ! k) = i \<and> distinct (map entry_id es)"
    using that by (simp add: set_blockchain_distinct)
  show "entry_id a = entry_id b" "file_name a = file_name b" "original_path a = original_path b"
    "hash a = hash b" "hash_algorithm a = hash_algorithm b" "registered_at a = registered_at b"
    "project a = project b" "client a = client b" "description a = description b"
    "local (proofs a) = local (proofs b)" "status a = status b"
    if "without_receipt a = without_receipt b"
    using without_receipt_fields [OF that] by simp_all
  show "map without_receipt (files (registry (fst (retry_loop pending protector w success failed))))
       = map without_receipt (files (registry protector))"
    using retry_loop_frame by simp
qed


theorem set_blockchain_frame_witness:
  "0 < length [abc_entry None] \<and> entry_id ([abc_entry None] ! 0) \<noteq> 2
   \<and> set_blockchain 2 example_receipt [abc_entry None] ! 0 = [abc_entry None] ! 0
   \<and> entry_id ([abc_entry None] ! 0) = 1
   \<and> distinct (map entry_id [abc_entry None])
   \<and> set_blockchain 1 example_receipt [abc_entry None] ! 0
       = ([abc_entry None] ! 0)
           \<lparr>proofs := (proofs ([abc_entry None] ! 0))\<lparr>blockchain := Some example_receipt\<rparr>\<rparr>
   \<and> without_receipt (abc_entry None) = without_receipt (abc_entry (Some example_receipt))
   \<and> hash (abc_entry None) = hash (abc_entry (Some example_receipt))
   \<and> local (proofs (abc_entry None)) = local (proofs (abc_entry (Some example_receipt)))"
proof -
  have k: "0 < length [abc_entry None]" by simp
  have n: "entry_id ([abc_entry None] ! 0) \<noteq> 2" by (simp add: abc_entry_def)
  have i: "entry_id ([abc_entry None] ! 0) = 1" by (simp add: abc_entry_def)
  have d: "distinct (map entry_id [abc_entry None])" by simp
  have w: "without_receipt (abc_entry None) = without_receipt (abc_entry (Some example_receipt))"
    by (simp add: without_receipt_def abc_entry_def)
  note t1 = set_blockchain_frame [of 2 example_receipt "[abc_entry None]" 0]
  note t2 = set_blockchain_frame [of 1 example_receipt "[abc_entry None]" 0
      "abc_entry None" "abc_entry (Some example_receipt)"]
  note c1 = t1 [THEN conjunct2, THEN conjunct2, THEN conjunct1, THEN mp, OF conjI [OF k n]]
  note c2 = t2 [THEN conjunct2, THEN conjunct2, THEN conjunct2, THEN conjunct1, THEN mp,
      OF conjI [OF k conjI [OF i d]]]
  note c3 = t2 [THEN conjunct2, THEN conjunct2, THEN conjunct2, THEN conjunct2, THEN conjunct1,
      THEN mp, OF w]
  from c3 have c4: "hash (abc_entry None) = hash (abc_entry (Some example_receipt))"
    and c5: "local (proofs (abc_entry None)) = local (proofs (abc_entry (Some example_receipt)))"
    by simp_all
  show ?thesis
    by (intro conjI) (rule k n c1 i d c2 w c4 c5)+
qed


section \<open>Retry: every pending entry is anchored, the ledger is saved once\<close>

lemma create_timestamp_succeeds:
  assumes "fromhex file_hash = Some hash_bytes"
    and "net w (length (requests w)) hash_bytes = Response body"
  shows "create_timestamp_opentimestamps self file_hash name w =
     (Some \<lparr>ots_service = ''OpenTimestamps'',
            ots_blockchain = ''Bitcoin'',
            ots_file = joinpath (proofs_dir self) (name @ ''_'' @ take 16 file_hash @ ''.ots''),
            ots_verification_url = ''https://opentimestamps.org/'',
            ots_status = ''pending_confirmation'',
            ots_note = ots_note_text\<rparr>,
      w\<lparr>requests := requests w @ [hash_bytes],
        fs := (fs w)(joinpath (proofs_dir self) (name @ ''_'' @ take 16 file_hash @ ''.ots'')
                \<mapsto> Bytes body),
        writes := writes w
          @ [joinpath (proofs_dir self) (name @ ''_'' @ take 16 file_hash @ ''.ots'')]\<rparr>)"
  using assms
  by (simp add: create_timestamp_opentimestamps_def Let_def open_w_def put_def)

lemma set_blockchain_ids: "map entry_id (set_blockchain i result es) = map entry_id es"
  by (induction es) auto

lemma set_blockchain_anchors:
  assumes "distinct (map entry_id es)"
    and "list_all (\<lambda>e. blockchain (proofs e) \<noteq> None \<or> entry_id e \<in> insert i ids) es"
  shows "list_all (\<lambda>e. blockchain (proofs e) \<noteq> None \<or> entry_id e \<in> ids)
           (set_blockchain i result es)"
  using assms(2) unfolding set_blockchain_distinct [OF assms(1)]
  by (auto simp: list_all_iff)

lemma retry_loop_success:
  assumes "always_answers w"
    and "list_all (\<lambda>e. fromhex (hash e) \<noteq> None) pending"
    and "distinct (map entry_id (files (registry p)))"
    and "list_all (\<lambda>e. blockchain (proofs e) \<noteq> None \<or> entry_id e \<in> entry_id ` set pending)
           (files (registry p))"
  shows "\<exists>p' w'. retry_loop pending p w s f = (p', w', s + length pending, f)
           \<and> list_all (\<lambda>e. blockchain (proofs e) \<noteq> None) (files (registry p'))
           \<and> requests w' = requests w @ map (\<lambda>e. the (fromhex (hash e))) pending
           \<and> writes w' = writes w @ map (ots_path p) pending
           \<and> ticks w' = ticks w \<and> clock w' = clock w
           \<and> registry_file p' = registry_file p"
  using assms
proof (induction pending arbitrary: p w s)
  case Nil
  then show ?case by (simp add: list_all_iff)
next
  case (Cons entry pending)
  from Cons.prems(2) obtain hash_bytes where hb: "fromhex (hash entry) = Some hash_bytes"
    and rest: "list_all (\<lambda>e. fromhex (hash e) \<noteq> None) pending"
    by auto
  from Cons.prems(1) obtain body where
    body: "net w (length (requests w)) hash_bytes = Response body"
    unfolding always_answers_def by (elim allE exE)
  let ?result = "\<lparr>ots_service = ''OpenTimestamps'',
            ots_blockchain = ''Bitcoin'',
            ots_file = ots_path p entry,
            ots_verification_url = ''https://opentimestamps.org/'',
            ots_status = ''pending_confirmation'',
            ots_note = ots_note_text\<rparr>"
  let ?w1 = "w\<lparr>requests := requests w @ [hash_bytes],
        fs := (fs w)(ots_path p entry \<mapsto> Bytes body),
        writes := writes w @ [ots_path p entry]\<rparr>"
  let ?p1 = "p\<lparr>registry := (registry p)
               \<lparr>files := set_blockchain (entry_id entry) ?result (files (registry p))\<rparr>\<rparr>"
  have step: "retry_loop (entry # pending) p w s f = retry_loop pending ?p1 ?w1 (s + 1) f"
    using create_timestamp_succeeds [OF hb body, of p "path_stem (file_name entry)"]
    by (simp add: ots_path_def)
  have a1: "always_answers ?w1"
    using Cons.prems(1) by (simp add: always_answers_def)
  have d1: "distinct (map entry_id (files (registry ?p1)))"
    using Cons.prems(3) by (simp add: set_blockchain_ids)
  have l1: "list_all (\<lambda>e. blockchain (proofs e) \<noteq> None \<or> entry_id e \<in> entry_id ` set pending)
           (files (registry ?p1))"
    using set_blockchain_anchors [OF Cons.prems(3), of "entry_id entry" "entry_id ` set pending"
        ?result] Cons.prems(4)
    by simp
  from Cons.IH [OF a1 rest d1 l1, of "s + 1"]
  obtain p' w' where r: "retry_loop pending ?p1 ?w1 (s + 1) f = (p', w', s + 1 + length pending, f)"
    and an: "list_all (\<lambda>e. blockchain (proofs e) \<noteq> None) (files (registry p'))"
    and rq: "requests w' = requests ?w1 @ map (\<lambda>e. the (fromhex (hash e))) pending"
    and wr: "writes w' = writes ?w1 @ map (ots_path ?p1) pending"
    and tk: "ticks w' = ticks ?w1" and ck: "clock w' = clock ?w1"
    and rf: "registry_file p' = registry_file ?p1"
    by (elim exE conjE)
  have op: "ots_path ?p1 = ots_path p"
    by (simp add: ots_path_def fun_eq_iff)
  show ?case
    apply (intro exI [of _ p'] exI [of _ w'])
    using step r an rq wr tk ck rf hb op by simp
qed


lemma CopyrightProtector_ledger:
  assumes "fs w (joinpath dir ''registry.json'') = Some (Json (RegistryDoc r))"
  shows "CopyrightProtector dir w =
     (Inr \<lparr>base_dir = dir, proofs_dir = joinpath dir ''proofs'',
           logs_dir = joinpath dir ''logs'', registry_file = joinpath dir ''registry.json'',
           registry = r\<rparr>, w)"
  using assms by (simp add: CopyrightProtector_def load_registry_def)

lemma ots_not_ledger:
  "joinpath (joinpath dir ''proofs'') x \<noteq> joinpath dir ''registry.json''"
  by (simp add: joinpath_def)

lemma count_list_ots:
  "count_list (map (\<lambda>e. joinpath (joinpath dir ''proofs'') (g e)) xs)
     (joinpath dir ''registry.json'') = 0"
  by (induction xs) (simp_all add: ots_not_ledger)

lemma retry_pending_files_nothing:
  assumes "fs w (joinpath dir ''registry.json'') = Some (Json (RegistryDoc r))"
    and "filter (\<lambda>entry. blockchain (proofs entry) = None) (files r) = []"
  shows "retry_pending_files dir w = (Inr None, w)"
  using assms by (simp add: retry_pending_files_def CopyrightProtector_ledger)

text \<open>
  C3, as the code has it. Let the ledger on disk have distinct ids and at least one
  entry without a blockchain proof, let the hashes of these pending entries be
  hexadecimal, and let the server answer every request. Then \<^verbatim>\<open>retry_pending_files\<close>
  reports one success for each pending entry and no failure; it sends exactly one
  request for each pending entry, in ledger order; the ledger it leaves on disk has the
  same entries up to their blockchain proofs, each with a blockchain proof; and the
  ledger file is opened for writing exactly once, after all receipts have been written.
\<close>

theorem retry_pending_files_converges:
  assumes ledger: "fs w (joinpath dir ''registry.json'') = Some (Json (RegistryDoc r))"
    and ids: "distinct (map entry_id (files r))"
    and pending: "pending = filter (\<lambda>entry. blockchain (proofs entry) = None) (files r)"
    and some: "pending \<noteq> []"
    and hashes: "list_all (\<lambda>e. fromhex (hash e) \<noteq> None) pending"
    and answers: "always_answers w"
  shows "\<exists>w' r'. retry_pending_files dir w = (Inr (Some (length pending, 0)), w')
          \<and> requests w' = requests w @ map (\<lambda>e. the (fromhex (hash e))) pending
          \<and> fs w' (joinpath dir ''registry.json'') = Some (Json (RegistryDoc r'))
          \<and> length (files r') = length (files r)
          \<and> list_all (\<lambda>e. blockchain (proofs e) \<noteq> None) (files r')
          \<and> map without_receipt (files r') = map without_receipt (files r)
          \<and> writes w' = writes w
               @ map (\<lambda>e. joinpath (joinpath dir ''proofs'')
                            (path_stem (file_name e) @ ''_'' @ take 16 (hash e) @ ''.ots''))
                   pending
               @ [joinpath dir ''registry.json'']
          \<and> count_list (drop (length (writes w)) (writes w')) (joinpath dir ''registry.json'') = 1"
proof -
  let ?p = "\<lparr>base_dir = dir, proofs_dir = joinpath dir ''proofs'',
           logs_dir = joinpath dir ''logs'', registry_file = joinpath dir ''registry.json'',
           registry = r\<rparr>"
  let ?ots = "\<lambda>e. joinpath (joinpath dir ''proofs'')
                            (path_stem (file_name e) @ ''_'' @ take 16 (hash e) @ ''.ots'')"
  have cover: "list_all (\<lambda>e. blockchain (proofs e) \<noteq> None \<or> entry_id e \<in> entry_id ` set pending)
           (files (registry ?p))"
    by (auto simp: pending list_all_iff)
  have d: "distinct (map entry_id (files (registry ?p)))"
    using ids by simp
  from retry_loop_success [OF answers hashes d cover, of 0 0]
  obtain p' w2 where loop: "retry_loop pending ?p w 0 0 = (p', w2, length pending, 0)"
    and an: "list_all (\<lambda>e. blockchain (proofs e) \<noteq> None) (files (registry p'))"
    and rq: "requests w2 = requests w @ map (\<lambda>e. the (fromhex (hash e))) pending"
    and wr: "writes w2 = writes w @ map (ots_path ?p) pending"
    and rf: "registry_file p' = registry_file ?p"
    by (elim exE conjE) simp
  from retry_loop_frame [of pending ?p w 0 0] loop
  have fr: "map without_receipt (files (registry p')) = map without_receipt (files r)"
    by simp
  then have len: "length (files (registry p')) = length (files r)"
    by (metis length_map)
  have op: "ots_path ?p = ?ots"
    by (simp add: ots_path_def fun_eq_iff)
  let ?r' = "(registry p')\<lparr>updated := Some (isoformat (clock w2 (ticks w2)))\<rparr>"
  let ?w' = "w2\<lparr>ticks := Suc (ticks w2),
        fs := (fs w2)(registry_file p' \<mapsto> Json (RegistryDoc ?r')),
        writes := writes w2 @ [registry_file p']\<rparr>"
  have run: "retry_pending_files dir w = (Inr (Some (length pending, 0)), ?w')"
    using some loop
    by (simp add: retry_pending_files_def CopyrightProtector_ledger [OF ledger]
        pending [symmetric] save_registry_eq)
  have cnt: "count_list (map ?ots pending @ [joinpath dir ''registry.json''])
               (joinpath dir ''registry.json'') = 1"
    by (simp add: count_list_ots)
  show ?thesis
    apply (intro exI [of _ ?w'] exI [of _ ?r'])
    using run an rq wr rf fr len op cnt by simp
qed


lemma ledger_world_ledger:
  "fs (ledger_world es) (joinpath ''/vault'' ''registry.json'')
     = Some (Json (RegistryDoc (registry (vault es))))"
  by (simp add: ledger_world_def joinpath_def)

lemma ledger_world_answers: "always_answers (ledger_world es)"
  by (simp add: always_answers_def ledger_world_def online_world_def)

theorem retry_pending_files_converges_witness:
  "fs (ledger_world [abc_entry None]) (joinpath ''/vault'' ''registry.json'')
     = Some (Json (RegistryDoc (registry (vault [abc_entry None]))))
   \<and> distinct (map entry_id (files (registry (vault [abc_entry None]))))
   \<and> [abc_entry None]
       = filter (\<lambda>entry. blockchain (proofs entry) = None)
           (files (registry (vault [abc_entry None])))
   \<and> [abc_entry None] \<noteq> []
   \<and> list_all (\<lambda>e. fromhex (hash e) \<noteq> None) [abc_entry None]
   \<and> always_answers (ledger_world [abc_entry None])
   \<and> (\<exists>w' r'. retry_pending_files ''/vault'' (ledger_world [abc_entry None])
                 = (Inr (Some (length [abc_entry None], 0)), w')
          \<and> requests w' = requests (ledger_world [abc_entry None])
               @ map (\<lambda>e. the (fromhex (hash e))) [abc_entry None]
          \<and> fs w' (joinpath ''/vault'' ''registry.json'') = Some (Json (RegistryDoc r'))
          \<and> length (files r') = length (files (registry (vault [abc_entry None])))
          \<and> list_all (\<lambda>e. blockchain (proofs e) \<noteq> None) (files r')
          \<and> map without_receipt (files r')
              = map without_receipt (files (registry (vault [abc_entry None])))
          \<and> writes w' = writes (ledger_world [abc_entry None])
               @ map (\<lambda>e. joinpath (joinpath ''/vault'' ''proofs'')
                            (path_stem (file_name e) @ ''_'' @ take 16 (hash e) @ ''.ots''))
                   [abc_entry None]
               @ [joinpath ''/vault'' ''registry.json'']
          \<and> count_list (drop (length (writes (ledger_world [abc_entry None]))) (writes w'))
               (joinpath ''/vault'' ''registry.json'') = 1)"
proof -
  note h1 = ledger_world_ledger [of "[abc_entry None]"]
  have h2: "distinct (map entry_id (files (registry (vault [abc_entry None]))))"
    by (simp add: vault_def)
  have h3: "[abc_entry None]
       = filter (\<lambda>entry. blockchain (proofs entry) = None)
           (files (registry (vault [abc_entry None])))"
    by (simp add: vault_def abc_entry_def)
  have h4: "[abc_entry None] \<noteq> []"
    by simp
  have h5: "list_all (\<lambda>e. fromhex (hash e) \<noteq> None) [abc_entry None]"
    using fromhex_abc_hash by (simp add: abc_entry_def)
  note h6 = ledger_world_answers [of "[abc_entry None]"]
  note t = retry_pending_files_converges [OF h1 h2 h3 h4 h5 h6]
  show ?thesis
    by (intro conjI) (rule h1 h2 h3 h4 h5 h6 t)+
qed

text \<open>
  With no pending entry the function returns before \<^verbatim>\<open>_save_registry\<close>: the ledger is
  not saved at all, although the server would have answered.
\<close>

theorem retry_pending_files_nothing_pending_counterexample:
  "fs (ledger_world [abc_entry (Some example_receipt)]) (joinpath ''/vault'' ''registry.json'')
     = Some (Json (RegistryDoc (registry (vault [abc_entry (Some example_receipt)]))))
   \<and> always_answers (ledger_world [abc_entry (Some example_receipt)])
   \<and> length (filter (\<lambda>entry. blockchain (proofs entry) = None)
               (files (registry (vault [abc_entry (Some example_receipt)])))) = 0
   \<and> retry_pending_files ''/vault'' (ledger_world [abc_entry (Some example_receipt)])
       = (Inr None, ledger_world [abc_entry (Some example_receipt)])
   \<and> count_list
         (drop (length (writes (ledger_world [abc_entry (Some example_receipt)])))
            (writes (snd (retry_pending_files ''/vault''
                            (ledger_world [abc_entry (Some example_receipt)])))))
         (joinpath ''/vault'' ''registry.json'') = 0"
proof -
  note h1 = ledger_world_ledger [of "[abc_entry (Some example_receipt)]"]
  note h2 = ledger_world_answers [of "[abc_entry (Some example_receipt)]"]
  have h3: "filter (\<lambda>entry. blockchain (proofs entry) = None)
               (files (registry (vault [abc_entry (Some example_receipt)]))) = []"
    by (simp add: vault_def abc_entry_def)
  note r = retry_pending_files_nothing [OF h1 h3]
  show ?thesis
    using h1 h2 by (simp add: h3 r)
qed

end
